theory Spec2Isabelle
  imports Main "HOL-Library.Sublist"
begin

section \<open>Ignore-file merging (PythonInitVSCodeStep.ts)\<close>

text \<open>
  The two functions \<^verbatim>\<open>ensureGitIgnoreContents\<close> and \<^verbatim>\<open>ensureVenvInFuncIgnore\<close> read a text
  file, append entries that are not yet a substring of it, and write it back. The file system
  is a map from paths to contents together with the list of \<^verbatim>\<open>fse.writeFile\<close> calls issued so
  far, so that "the content is the same" and "nothing was written" are different statements.
  The calls of \<^verbatim>\<open>fs-extra\<close> are taken to succeed; the source has no handler for their failure.
\<close>

text \<open>What Node's \<^verbatim>\<open>os\<close> and \<^verbatim>\<open>path\<close> modules supply: \<^verbatim>\<open>os.EOL\<close> and \<^verbatim>\<open>path.join\<close>.\<close>

record os_env =
  EOL :: string
  path_join :: "string \<Rightarrow> string \<Rightarrow> string"

record file_system =
  files :: "string \<rightharpoonup> string"
  written :: "(string \<times> string) list"

definition pathExists :: "file_system \<Rightarrow> string \<Rightarrow> bool" where
  "pathExists fs p = (files fs p \<noteq> None)"

definition writeFile :: "string \<Rightarrow> string \<Rightarrow> file_system \<Rightarrow> file_system" where
  "writeFile p contents fs =
     fs\<lparr>files := (files fs)(p \<mapsto> contents), written := written fs @ [(p, contents)]\<rparr>"

text \<open>\<^verbatim>\<open>String.prototype.includes\<close>: the argument occurs as a contiguous substring.\<close>

definition str_includes :: "string \<Rightarrow> string \<Rightarrow> bool" where
  "str_includes s searchString = sublist searchString s"

text \<open>
  The \<^verbatim>\<open>for (const line of lines)\<close> loop of \<^verbatim>\<open>ensureGitIgnoreContents\<close>, with its two mutable
  locals \<^verbatim>\<open>gitignoreContents\<close> and \<^verbatim>\<open>writeFile\<close>.
\<close>

fun gitignore_loop :: "string \<Rightarrow> string list \<Rightarrow> string \<Rightarrow> bool \<Rightarrow> string \<times> bool" where
  "gitignore_loop eol [] gitignoreContents writeFlag = (gitignoreContents, writeFlag)"
| "gitignore_loop eol (line # lines) gitignoreContents writeFlag =
     (if \<not> str_includes gitignoreContents line
      then gitignore_loop eol lines (gitignoreContents @ eol @ line) True
      else gitignore_loop eol lines gitignoreContents writeFlag)"

text \<open>
  \<^verbatim>\<open>gitignoreFileName\<close> is a constant of \<^verbatim>\<open>constants.ts\<close>, which is not part of the sources at
  hand; it is a parameter here.
\<close>

definition ensureGitIgnoreContents ::
  "os_env \<Rightarrow> string \<Rightarrow> string \<Rightarrow> string list \<Rightarrow> file_system \<Rightarrow> file_system" where
  "ensureGitIgnoreContents os gitignoreFileName projectPath lines fs =
     (let gitignorePath = path_join os projectPath gitignoreFileName in
      if pathExists fs gitignorePath then
        (case files fs gitignorePath of
           None \<Rightarrow> fs
         | Some contents \<Rightarrow>
             (case gitignore_loop (EOL os) lines contents False of
                (gitignoreContents, writeFlag) \<Rightarrow>
                  if writeFlag then writeFile gitignorePath gitignoreContents fs else fs))
      else fs)"

text \<open>
  In \<^verbatim>\<open>ensureVenvInFuncIgnore\<close> the local \<^verbatim>\<open>funcIgnoreContents\<close> is \<^verbatim>\<open>string | undefined\<close> and is
  tested for truthiness twice: the empty string counts as absent. The write is unconditional.
\<close>

definition ensureVenvInFuncIgnore ::
  "os_env \<Rightarrow> string \<Rightarrow> string \<Rightarrow> file_system \<Rightarrow> file_system" where
  "ensureVenvInFuncIgnore os projectPath venvName fs =
     (let funcIgnorePath = path_join os projectPath ''.funcignore'';
          read = (if pathExists fs funcIgnorePath then
                    (case files fs funcIgnorePath of
                       None \<Rightarrow> None
                     | Some contents \<Rightarrow>
                         if contents \<noteq> [] \<and> \<not> str_includes contents venvName
                         then Some (contents @ EOL os @ venvName)
                         else Some contents)
                  else None);
          funcIgnoreContents = (case read of
                                  None \<Rightarrow> venvName
                                | Some contents \<Rightarrow> if contents = [] then venvName else contents)
      in writeFile funcIgnorePath funcIgnoreContents fs)"


section \<open>Editor tasks of a Python project (PythonInitVSCodeStep.getTasks)\<close>

text \<open>
  Modelled from the spec: the enumeration \<^verbatim>\<open>Platform\<close> of \<^verbatim>\<open>constants.ts\<close>, which is not among
  the sources at hand. \<^verbatim>\<open>getTasks\<close> uses its members \<^verbatim>\<open>MacOS\<close>, \<^verbatim>\<open>Windows\<close> and \<^verbatim>\<open>Linux\<close>, one
  for each of the three platform-specific commands.
\<close>

datatype Platform = MacOS | Windows | Linux

text \<open>
  What \<^verbatim>\<open>getTasks\<close> imports and does not define: the string constants of \<^verbatim>\<open>constants.ts\<close>,
  \<^verbatim>\<open>ext.prefix\<close> and \<^verbatim>\<open>venvUtils.convertToVenvPythonCommand\<close>. None of them is among the
  sources at hand, so they are parameters.
\<close>

record constants =
  func :: string
  hostStartCommand :: string
  extInstallCommand :: string
  extInstallTaskName :: string
  funcWatchProblemMatcher :: string
  pythonVenvSetting :: string
  ext_prefix :: string
  convertToVenvPythonCommand :: "string \<Rightarrow> string \<Rightarrow> Platform \<Rightarrow> string"

text \<open>
  A \<^verbatim>\<open>TaskDefinition\<close> with the properties that \<^verbatim>\<open>getTasks\<close> sets; a property the object
  literal leaves out, or sets to \<^verbatim>\<open>undefined\<close>, is \<open>None\<close>. The per-platform properties
  \<^verbatim>\<open>osx\<close>, \<^verbatim>\<open>windows\<close> and \<^verbatim>\<open>linux\<close> are objects with the one property \<^verbatim>\<open>command\<close>.
\<close>

datatype problemMatcher = Matcher string | Matchers "string list"

record TaskDefinition =
  label :: "string option"
  type :: string
  command :: "string option"
  problemMatcher :: problemMatcher
  isBackground :: "bool option"
  dependsOn :: "string option"
  osx :: "string option"
  windows :: "string option"
  linux :: "string option"

text \<open>Truthiness of a \<^verbatim>\<open>string | undefined\<close>: defined and not empty.\<close>

definition truthy :: "string option \<Rightarrow> bool" where
  "truthy s = (case s of None \<Rightarrow> False | Some v \<Rightarrow> v \<noteq> [])"

definition getTasks :: "constants \<Rightarrow> bool \<Rightarrow> string option \<Rightarrow> TaskDefinition list" where
  "getTasks k requiresFuncExtensionsInstall venvName =
     (let pipInstallLabel = ''pipInstall'';
          dependsOn_host =
            (if requiresFuncExtensionsInstall then Some (extInstallTaskName k)
             else if truthy venvName then Some pipInstallLabel
             else None);
          tasks =
            [\<lparr>label = None, type = func k, command = Some (hostStartCommand k),
              problemMatcher = Matcher (funcWatchProblemMatcher k), isBackground = Some True,
              dependsOn = dependsOn_host, osx = None, windows = None, linux = None\<rparr>]
      in if truthy venvName then
           (let tasks1 =
                  (if requiresFuncExtensionsInstall then
                     tasks @
                     [\<lparr>label = None, type = func k, command = Some (extInstallCommand k),
                       problemMatcher = Matchers [], isBackground = None,
                       dependsOn = Some pipInstallLabel,
                       osx = None, windows = None, linux = None\<rparr>]
                   else tasks);
                venvSettingReference =
                  ''${config:'' @ ext_prefix k @ ''.'' @ pythonVenvSetting k @ ''}'';
                getPipInstallCommand =
                  (\<lambda>platform. convertToVenvPythonCommand k
                     ''pip install -r requirements.txt'' venvSettingReference platform)
            in tasks1 @
               [\<lparr>label = Some pipInstallLabel, type = ''shell'', command = None,
                 problemMatcher = Matchers [], isBackground = None, dependsOn = None,
                 osx = Some (getPipInstallCommand MacOS),
                 windows = Some (getPipInstallCommand Windows),
                 linux = Some (getPipInstallCommand Linux)\<rparr>])
         else tasks)"

text \<open>
  A concrete instance of the parameters, for evaluating \<^verbatim>\<open>getTasks\<close>: a value for each
  constant, and a stand-in for \<^verbatim>\<open>convertToVenvPythonCommand\<close> that keeps its three arguments
  apart.
\<close>

definition platform_name :: "Platform \<Rightarrow> string" where
  "platform_name p = (case p of MacOS \<Rightarrow> ''darwin'' | Windows \<Rightarrow> ''win32'' | Linux \<Rightarrow> ''linux'')"

definition example_constants :: constants where
  "example_constants =
     \<lparr>func = ''func'', hostStartCommand = ''host start'',
      extInstallCommand = ''extensions install'',
      extInstallTaskName = ''func: extensions install'',
      funcWatchProblemMatcher = ''$func-watch'', pythonVenvSetting = ''pythonVenv'',
      ext_prefix = ''azureFunctions'',
      convertToVenvPythonCommand =
        (\<lambda>command venvName platform.
           platform_name platform @ '' '' @ venvName @ '' python -m '' @ command)\<rparr>"



section \<open>The remote site node (SlotTreeItemBase.ts)\<close>

subsection \<open>Values exchanged with the remote client\<close>

text \<open>A rejected promise, or a thrown exception, with its message.\<close>

datatype error = Rejected string

text \<open>
  Payloads that the node passes on without looking inside (\<^verbatim>\<open>data: any\<close>, a \<^verbatim>\<open>SiteConfig\<close>, a
  \<^verbatim>\<open>SiteSourceControl\<close>) are JSON values.
\<close>

datatype json =
    JNull | JBool bool | JNumber int | JString string
  | JArray "json list" | JObject "(string \<times> json) list"

text \<open>
  Modelled from the spec: the runtime-version enumeration \<^verbatim>\<open>FuncVersion\<close> of \<^verbatim>\<open>FuncVersion.ts\<close>,
  which is not among the sources at hand. Its members are non-empty strings, so every
  member is truthy, which is what \<^verbatim>\<open>version || latestGAVersion\<close> relies on; none of the
  properties below depends on how many members there are.
  \<^verbatim>\<open>latestGAVersion\<close>, \<^verbatim>\<open>tryParseFuncVersion\<close> and
  \<^verbatim>\<open>parseHostJson\<close> are parameters; \<open>None\<close> from \<^verbatim>\<open>tryParseFuncVersion\<close> stands for \<^verbatim>\<open>undefined\<close>
  and for an exception alike, since it is called inside the \<^verbatim>\<open>try\<close> block that leaves
  \<^verbatim>\<open>version\<close> undefined in both cases. The parsed host configuration is an object of a type
  \<open>'h\<close> that the node never inspects; being an object it is truthy, so \<^verbatim>\<open>!result\<close> in
  \<^verbatim>\<open>getHostJson\<close> holds exactly when nothing is cached.
\<close>

datatype FuncVersion = FuncVersion_v1 | FuncVersion_v2 | FuncVersion_v3

record 'h deps =
  latestGAVersion :: FuncVersion
  tryParseFuncVersion :: "string option \<Rightarrow> FuncVersion option"
  parseHostJson :: "json option \<Rightarrow> FuncVersion \<Rightarrow> 'h"

text \<open>\<^verbatim>\<open>WebSiteManagementModels.StringDictionary\<close>, \<^verbatim>\<open>AppServicePlan\<close> and \<^verbatim>\<open>SkuDescription\<close>.\<close>

record StringDictionary =
  properties :: "(string \<rightharpoonup> string) option"

record SkuDescription =
  tier :: "string option"

record AppServicePlan =
  sku :: "SkuDescription option"

text \<open>
  What the remote side would answer to each operation at the moment of a call: every
  operation of \<^verbatim>\<open>SiteClient\<close> that the node awaits either resolves (\<open>Inr\<close>) or rejects
  (\<open>Inl\<close>). \<^verbatim>\<open>getKuduClient\<close> resolves to a client whose only use is
  \<^verbatim>\<open>functionModel.getHostSettings()\<close>. The two static factories
  \<^verbatim>\<open>RemoteFunctionsTreeItem.createFunctionsTreeItem\<close> and \<^verbatim>\<open>ProxiesTreeItem.createProxiesTreeItem\<close>
  are asynchronous and not among the sources at hand; whether they resolve is part of the
  answer too. The answers may differ from one call of the node to the next.
\<close>

record SiteClient =
  initialState :: "string option"
  getState :: "error + string option"
  listApplicationSettings :: "error + StringDictionary"
  getKuduClient :: "error + unit"
  getHostSettings :: "error + json"
  getAppServicePlan :: "error + AppServicePlan option"
  getSiteConfig :: "error + json"
  getSourceControl :: "error + json"
  createFunctionsTreeItem :: "error + unit"
  createProxiesTreeItem :: "error + unit"

datatype remote_call =
    Call_getState | Call_listApplicationSettings | Call_getKuduClient | Call_getHostSettings
  | Call_getAppServicePlan | Call_getSiteConfig | Call_getSourceControl
  | Call_createFunctionsTreeItem | Call_createProxiesTreeItem

subsection \<open>The node and its children\<close>

text \<open>
  Tree items are objects: each carries the number it was allocated under, so that two
  items made by two \<^verbatim>\<open>new\<close> expressions are different values.
\<close>

datatype AzExtTreeItem =
    AppSettingsTreeItem nat
  | SiteFilesTreeItem nat
  | LogFilesTreeItem nat
  | DeploymentsTreeItem nat json json
  | RemoteFunctionsTreeItem nat
  | ProxiesTreeItem nat

text \<open>
  The mutable fields of \<^verbatim>\<open>SlotTreeItemBase\<close> and the children it holds. \<open>calls\<close> and
  \<open>allocated\<close> are not fields of the class: \<open>calls\<close> records every remote operation issued so
  far, oldest first, and \<open>allocated\<close> is the number of objects allocated so far.
\<close>

record 'h SlotTreeItemBase =
  appSettingsTreeItem :: AzExtTreeItem
  deploymentsNode :: "AzExtTreeItem option"
  state :: "string option"
  functionsTreeItem :: "AzExtTreeItem option"
  proxiesTreeItem :: "AzExtTreeItem option"
  logFilesTreeItem :: AzExtTreeItem
  siteFilesTreeItem :: AzExtTreeItem
  cachedVersion :: "FuncVersion option"
  cachedHostJson :: "'h option"
  cachedIsConsumption :: "bool option"
  calls :: "remote_call list"
  allocated :: nat

definition constructor :: "SiteClient \<Rightarrow> nat \<Rightarrow> 'h SlotTreeItemBase" where
  "constructor client n =
     \<lparr>appSettingsTreeItem = AppSettingsTreeItem n,
      deploymentsNode = None,
      state = initialState client,
      functionsTreeItem = None,
      proxiesTreeItem = None,
      logFilesTreeItem = LogFilesTreeItem (n + 2),
      siteFilesTreeItem = SiteFilesTreeItem (n + 1),
      cachedVersion = None,
      cachedHostJson = None,
      cachedIsConsumption = None,
      calls = [],
      allocated = n + 3\<rparr>"

subsection \<open>Asynchronous methods\<close>

text \<open>
  An \<^verbatim>\<open>async\<close> method run to completion: from the node before the call to the node after
  it, with either the value the promise resolves to or the error it rejects with. \<open>await\<close>
  sequences two steps and passes a rejection on; \<open>try_catch\<close> is \<^verbatim>\<open>try { ... } catch { ... }\<close>.
  Methods of one node are run one after the other.
\<close>

type_synonym ('h, 'a) async = "'h SlotTreeItemBase \<Rightarrow> (error + 'a) \<times> 'h SlotTreeItemBase"

definition resolve :: "'a \<Rightarrow> ('h, 'a) async" where
  "resolve a this = (Inr a, this)"

definition await :: "('h, 'a) async \<Rightarrow> ('a \<Rightarrow> ('h, 'b) async) \<Rightarrow> ('h, 'b) async" where
  "await m f this =
     (case m this of (Inl e, this') \<Rightarrow> (Inl e, this') | (Inr a, this') \<Rightarrow> f a this')"

definition try_catch :: "('h, 'a) async \<Rightarrow> ('h, 'a) async \<Rightarrow> ('h, 'a) async" where
  "try_catch body handler this =
     (case body this of (Inl e, this') \<Rightarrow> handler this' | (Inr a, this') \<Rightarrow> (Inr a, this'))"

definition assign :: "('h SlotTreeItemBase \<Rightarrow> 'h SlotTreeItemBase) \<Rightarrow> ('h, unit) async" where
  "assign f this = (Inr (), f this)"

definition read :: "('h SlotTreeItemBase \<Rightarrow> 'a) \<Rightarrow> ('h, 'a) async" where
  "read f this = (Inr (f this), this)"

text \<open>A remote operation: its answer, and a note in \<open>calls\<close> that it was issued.\<close>

definition remote :: "remote_call \<Rightarrow> error + 'a \<Rightarrow> ('h, 'a) async" where
  "remote c answer this = (answer, this\<lparr>calls := calls this @ [c]\<rparr>)"

definition refreshImpl :: "SiteClient \<Rightarrow> ('h, unit) async" where
  "refreshImpl client =
     await (assign (\<lambda>this. this\<lparr>cachedVersion := None\<rparr>)) (\<lambda>_.
     await (assign (\<lambda>this. this\<lparr>cachedHostJson := None\<rparr>)) (\<lambda>_.
     await (assign (\<lambda>this. this\<lparr>cachedIsConsumption := None\<rparr>)) (\<lambda>_.
     try_catch
       (await (remote Call_getState (getState client)) (\<lambda>s.
        assign (\<lambda>this. this\<lparr>state := s\<rparr>)))
       (assign (\<lambda>this. this\<lparr>state := Some ''Unknown''\<rparr>)))))"

text \<open>
  The expression \<^verbatim>\<open>appSettings.properties && appSettings.properties.FUNCTIONS_EXTENSION_VERSION\<close>.
\<close>

definition FUNCTIONS_EXTENSION_VERSION :: "StringDictionary \<Rightarrow> string option" where
  "FUNCTIONS_EXTENSION_VERSION appSettings =
     (case properties appSettings of
        None \<Rightarrow> None
      | Some props \<Rightarrow> props ''FUNCTIONS_EXTENSION_VERSION'')"

definition getVersion :: "'h deps \<Rightarrow> SiteClient \<Rightarrow> ('h, FuncVersion) async" where
  "getVersion d client =
     await (read cachedVersion) (\<lambda>cached.
     case cached of
       Some result \<Rightarrow> resolve result
     | None \<Rightarrow>
         await
           (try_catch
              (await (remote Call_listApplicationSettings (listApplicationSettings client))
                 (\<lambda>appSettings.
                    resolve (tryParseFuncVersion d (FUNCTIONS_EXTENSION_VERSION appSettings))))
              (resolve None))
           (\<lambda>version.
              let result = (case version of Some v \<Rightarrow> v | None \<Rightarrow> latestGAVersion d) in
              await (assign (\<lambda>this. this\<lparr>cachedVersion := Some result\<rparr>)) (\<lambda>_.
              resolve result)))"

definition getHostJson :: "'h deps \<Rightarrow> SiteClient \<Rightarrow> ('h, 'h) async" where
  "getHostJson d client =
     await (read cachedHostJson) (\<lambda>cached.
     case cached of
       Some result \<Rightarrow> resolve result
     | None \<Rightarrow>
         await
           (try_catch
              (await (remote Call_getKuduClient (getKuduClient client)) (\<lambda>kuduClient.
               await (remote Call_getHostSettings (getHostSettings client)) (\<lambda>data.
               resolve (Some data))))
              (resolve None))
           (\<lambda>data.
              await (getVersion d client) (\<lambda>version.
              let result = parseHostJson d data version in
              await (assign (\<lambda>this. this\<lparr>cachedHostJson := Some result\<rparr>)) (\<lambda>_.
              resolve result))))"

text \<open>\<^verbatim>\<open>String.prototype.toLowerCase\<close>, on the letters \<^verbatim>\<open>A\<close> to \<^verbatim>\<open>Z\<close>.\<close>

definition toLowerCase_char :: "char \<Rightarrow> char" where
  "toLowerCase_char c =
     (let n = (of_char c :: nat) in if 65 \<le> n \<and> n \<le> 90 then char_of (n + 32) else c)"

definition toLowerCase :: "string \<Rightarrow> string" where
  "toLowerCase s = map toLowerCase_char s"

text \<open>
  The expression \<^verbatim>\<open>!asp || !asp.sku || !asp.sku.tier || asp.sku.tier.toLowerCase() === 'dynamic'\<close>:
  an object is truthy, a string is truthy when it is not empty.
\<close>

definition isConsumptionPlan :: "AppServicePlan option \<Rightarrow> bool" where
  "isConsumptionPlan asp =
     (case asp of
        None \<Rightarrow> True
      | Some plan \<Rightarrow>
          (case sku plan of
             None \<Rightarrow> True
           | Some s \<Rightarrow>
               (case tier s of
                  None \<Rightarrow> True
                | Some t \<Rightarrow> t = [] \<or> toLowerCase t = ''dynamic'')))"

definition getIsConsumption :: "SiteClient \<Rightarrow> ('h, bool) async" where
  "getIsConsumption client =
     await (read cachedIsConsumption) (\<lambda>cached.
     case cached of
       Some result \<Rightarrow> resolve result
     | None \<Rightarrow>
         await
           (try_catch
              (await (remote Call_getAppServicePlan (getAppServicePlan client)) (\<lambda>asp.
               resolve (isConsumptionPlan asp)))
              (resolve True))
           (\<lambda>result.
              await (assign (\<lambda>this. this\<lparr>cachedIsConsumption := Some result\<rparr>)) (\<lambda>_.
              resolve result)))"

text \<open>\<^verbatim>\<open>new DeploymentsTreeItem(this, siteConfig, sourceControl)\<close> and the two factories.\<close>

definition new_DeploymentsTreeItem :: "json \<Rightarrow> json \<Rightarrow> ('h, AzExtTreeItem) async" where
  "new_DeploymentsTreeItem siteConfig sourceControl this =
     (Inr (DeploymentsTreeItem (allocated this) siteConfig sourceControl),
      this\<lparr>allocated := Suc (allocated this)\<rparr>)"

definition RemoteFunctionsTreeItem_createFunctionsTreeItem ::
  "SiteClient \<Rightarrow> ('h, AzExtTreeItem) async" where
  "RemoteFunctionsTreeItem_createFunctionsTreeItem client =
     await (remote Call_createFunctionsTreeItem (createFunctionsTreeItem client)) (\<lambda>_.
     (\<lambda>this. (Inr (RemoteFunctionsTreeItem (allocated this)),
               this\<lparr>allocated := Suc (allocated this)\<rparr>)))"

definition ProxiesTreeItem_createProxiesTreeItem ::
  "SiteClient \<Rightarrow> ('h, AzExtTreeItem) async" where
  "ProxiesTreeItem_createProxiesTreeItem client =
     await (remote Call_createProxiesTreeItem (createProxiesTreeItem client)) (\<lambda>_.
     (\<lambda>this. (Inr (ProxiesTreeItem (allocated this)),
               this\<lparr>allocated := Suc (allocated this)\<rparr>)))"

definition loadMoreChildrenImpl :: "SiteClient \<Rightarrow> ('h, AzExtTreeItem list) async" where
  "loadMoreChildrenImpl client =
     await (remote Call_getSiteConfig (getSiteConfig client)) (\<lambda>siteConfig.
     await (remote Call_getSourceControl (getSourceControl client)) (\<lambda>sourceControl.
     await (new_DeploymentsTreeItem siteConfig sourceControl) (\<lambda>deployments.
     await (assign (\<lambda>this. this\<lparr>deploymentsNode := Some deployments\<rparr>)) (\<lambda>_.
     await (read functionsTreeItem) (\<lambda>existingFunctions.
     await (case existingFunctions of
              Some functions \<Rightarrow> resolve functions
            | None \<Rightarrow>
                await (RemoteFunctionsTreeItem_createFunctionsTreeItem client) (\<lambda>functions.
                await (assign (\<lambda>this. this\<lparr>functionsTreeItem := Some functions\<rparr>)) (\<lambda>_.
                resolve functions))) (\<lambda>functions.
     await (read proxiesTreeItem) (\<lambda>existingProxies.
     await (case existingProxies of
              Some proxies \<Rightarrow> resolve proxies
            | None \<Rightarrow>
                await (ProxiesTreeItem_createProxiesTreeItem client) (\<lambda>proxies.
                await (assign (\<lambda>this. this\<lparr>proxiesTreeItem := Some proxies\<rparr>)) (\<lambda>_.
                resolve proxies))) (\<lambda>proxies.
     (\<lambda>this. (Inr [functions, appSettingsTreeItem this, siteFilesTreeItem this,
                     logFilesTreeItem this, deployments, proxies], this))))))))))"

subsection \<open>Picking a child by context value\<close>

text \<open>
  An expected context value is a string or a \<^verbatim>\<open>RegExp\<close> object. A \<^verbatim>\<open>RegExp\<close> is an object:
  \<^verbatim>\<open>===\<close> compares identity, so it carries the number it was allocated under beside its
  source text.
\<close>

datatype RegExp = RegExp nat string

datatype contextValue = Str string | Rx RegExp

text \<open>
  The static \<^verbatim>\<open>contextValue\<close> members of the tree item classes and the members of
  \<^verbatim>\<open>ProjectResource\<close> come from modules that are not among the sources at hand, as do
  \<^verbatim>\<open>matchesAnyPart\<close> and the matching of a regular expression (\<^verbatim>\<open>RegExp.prototype.test\<close>); they
  are parameters. \<^verbatim>\<open>DeploymentTreeItem.contextValue\<close> is a \<^verbatim>\<open>RegExp\<close>, as the source's comment
  says and its call of \<^verbatim>\<open>test\<close> requires.
\<close>

record contextValues =
  AppSettingsTreeItem_contextValue :: contextValue
  AppSettingTreeItem_contextValue :: contextValue
  ProxiesTreeItem_contextValue :: contextValue
  ProxyTreeItem_contextValue :: contextValue
  ProxyTreeItem_readOnlyContextValue :: contextValue
  DeploymentsTreeItem_contextValueConnected :: contextValue
  DeploymentsTreeItem_contextValueUnconnected :: contextValue
  DeploymentTreeItem_contextValue :: RegExp
  RegExp_test :: "RegExp \<Rightarrow> string \<Rightarrow> bool"
  matchesAnyPart :: "RegExp \<Rightarrow> string list \<Rightarrow> bool"
  ProjectResource_Functions :: string
  ProjectResource_Function :: string
  ProjectResource_Bindings :: string
  ProjectResource_Binding :: string

text \<open>
  The \<^verbatim>\<open>for\<close> loop over \<^verbatim>\<open>expectedContextValues\<close> with its \<^verbatim>\<open>switch\<close>: the case labels are
  compared with \<^verbatim>\<open>===\<close> in the order written; in the \<^verbatim>\<open>default\<close> branch a string that the
  deployment pattern does not match, and a \<^verbatim>\<open>RegExp\<close> that \<^verbatim>\<open>matchesAnyPart\<close> rejects, fall
  through to the next iteration. The method awaits nothing and changes nothing.
\<close>

fun pickTreeItemImpl ::
  "contextValues \<Rightarrow> 'h SlotTreeItemBase \<Rightarrow> contextValue list \<Rightarrow> AzExtTreeItem option" where
  "pickTreeItemImpl k this [] = None"
| "pickTreeItemImpl k this (expectedContextValue # rest) =
     (if expectedContextValue = AppSettingsTreeItem_contextValue k
         \<or> expectedContextValue = AppSettingTreeItem_contextValue k
      then Some (appSettingsTreeItem this)
      else if expectedContextValue = ProxiesTreeItem_contextValue k
         \<or> expectedContextValue = ProxyTreeItem_contextValue k
         \<or> expectedContextValue = ProxyTreeItem_readOnlyContextValue k
      then proxiesTreeItem this
      else if expectedContextValue = DeploymentsTreeItem_contextValueConnected k
         \<or> expectedContextValue = DeploymentsTreeItem_contextValueUnconnected k
         \<or> expectedContextValue = Rx (DeploymentTreeItem_contextValue k)
      then deploymentsNode this
      else (case expectedContextValue of
              Str s \<Rightarrow>
                if RegExp_test k (DeploymentTreeItem_contextValue k) s
                then deploymentsNode this
                else pickTreeItemImpl k this rest
            | Rx r \<Rightarrow>
                if matchesAnyPart k r
                     [ProjectResource_Functions k, ProjectResource_Function k,
                      ProjectResource_Bindings k, ProjectResource_Binding k]
                then functionsTreeItem this
                else pickTreeItemImpl k this rest))"

subsection \<open>Sequences of calls on one node\<close>

text \<open>
  A caller invokes the methods of a node one after the other; between two calls the remote
  side may change, so each call comes with the answers the remote side would give then.
\<close>

datatype operation = Refresh | GetVersion | GetHostJson | GetIsConsumption | LoadMoreChildren

definition invoke ::
  "'h deps \<Rightarrow> operation \<times> SiteClient \<Rightarrow> 'h SlotTreeItemBase \<Rightarrow> 'h SlotTreeItemBase" where
  "invoke d mc this =
     (case fst mc of
        Refresh \<Rightarrow> snd (refreshImpl (snd mc) this)
      | GetVersion \<Rightarrow> snd (getVersion d (snd mc) this)
      | GetHostJson \<Rightarrow> snd (getHostJson d (snd mc) this)
      | GetIsConsumption \<Rightarrow> snd (getIsConsumption (snd mc) this)
      | LoadMoreChildren \<Rightarrow> snd (loadMoreChildrenImpl (snd mc) this))"

fun run ::
  "'h deps \<Rightarrow> (operation \<times> SiteClient) list \<Rightarrow> 'h SlotTreeItemBase \<Rightarrow> 'h SlotTreeItemBase" where
  "run d [] this = this"
| "run d (mc # rest) this = run d rest (invoke d mc this)"

subsection \<open>The lookup table of \<^verbatim>\<open>pickTreeItemImpl\<close>, as the specification words it\<close>

text \<open>
  The specification describes \<^verbatim>\<open>pickTreeItemImpl\<close> as a fixed table from markers to children
  and a search for the first marker that the table knows: settings markers go to the
  app-settings child, proxy markers to the proxies child, deployment markers (by exact
  value, or a string that the deployment pattern matches) to the deployments child, and
  \<^verbatim>\<open>RegExp\<close> markers that the multi-part matcher accepts to the functions child.
\<close>

datatype child = AppSettingsChild | ProxiesChild | DeploymentsChild | FunctionsChild

definition lookup_table :: "contextValues \<Rightarrow> contextValue \<Rightarrow> child option" where
  "lookup_table k m =
     (if m \<in> {AppSettingsTreeItem_contextValue k, AppSettingTreeItem_contextValue k}
      then Some AppSettingsChild
      else if m \<in> {ProxiesTreeItem_contextValue k, ProxyTreeItem_contextValue k,
                    ProxyTreeItem_readOnlyContextValue k}
      then Some ProxiesChild
      else if m \<in> {DeploymentsTreeItem_contextValueConnected k,
                    DeploymentsTreeItem_contextValueUnconnected k,
                    Rx (DeploymentTreeItem_contextValue k)}
      then Some DeploymentsChild
      else (case m of
              Str s \<Rightarrow>
                if RegExp_test k (DeploymentTreeItem_contextValue k) s
                then Some DeploymentsChild else None
            | Rx r \<Rightarrow>
                if matchesAnyPart k r
                     [ProjectResource_Functions k, ProjectResource_Function k,
                      ProjectResource_Bindings k, ProjectResource_Binding k]
                then Some FunctionsChild else None))"

definition child_of :: "'h SlotTreeItemBase \<Rightarrow> child \<Rightarrow> AzExtTreeItem option" where
  "child_of this c =
     (case c of
        AppSettingsChild \<Rightarrow> Some (appSettingsTreeItem this)
      | ProxiesChild \<Rightarrow> proxiesTreeItem this
      | DeploymentsChild \<Rightarrow> deploymentsNode this
      | FunctionsChild \<Rightarrow> functionsTreeItem this)"

definition first_match :: "contextValues \<Rightarrow> contextValue list \<Rightarrow> child option" where
  "first_match k ms = (case List.map_filter (lookup_table k) ms of [] \<Rightarrow> None | c # _ \<Rightarrow> Some c)"

definition pickChild ::
  "contextValues \<Rightarrow> 'h SlotTreeItemBase \<Rightarrow> contextValue list \<Rightarrow> AzExtTreeItem option" where
  "pickChild k this ms = (case first_match k ms of None \<Rightarrow> None | Some c \<Rightarrow> child_of this c)"

subsection \<open>Concrete instances for evaluation\<close>

text \<open>
  Stand-ins for the imported functions, and two remote sides: one that answers every
  operation, one that rejects every operation.
\<close>

definition example_deps :: "(json option \<times> FuncVersion) deps" where
  "example_deps =
     \<lparr>latestGAVersion = FuncVersion_v3,
      tryParseFuncVersion =
        (\<lambda>s. if s = Some ''~1'' then Some FuncVersion_v1
             else if s = Some ''~2'' then Some FuncVersion_v2
             else if s = Some ''~3'' then Some FuncVersion_v3
             else None),
      parseHostJson = Pair\<rparr>"

definition example_client :: SiteClient where
  "example_client =
     \<lparr>initialState = Some ''Running'',
      getState = Inr (Some ''Stopped''),
      listApplicationSettings =
        Inr \<lparr>properties = Some [''FUNCTIONS_EXTENSION_VERSION'' \<mapsto> ''~2'']\<rparr>,
      getKuduClient = Inr (),
      getHostSettings = Inr (JObject [(''version'', JString ''2.0'')]),
      getAppServicePlan = Inr (Some \<lparr>sku = Some \<lparr>tier = Some ''Standard''\<rparr>\<rparr>),
      getSiteConfig = Inr (JObject [(''scmType'', JString ''None'')]),
      getSourceControl = Inr (JObject []),
      createFunctionsTreeItem = Inr (),
      createProxiesTreeItem = Inr ()\<rparr>"

definition failing_client :: SiteClient where
  "failing_client =
     \<lparr>initialState = None,
      getState = Inl (Rejected ''ETIMEDOUT''),
      listApplicationSettings = Inl (Rejected ''ETIMEDOUT''),
      getKuduClient = Inl (Rejected ''ETIMEDOUT''),
      getHostSettings = Inl (Rejected ''ETIMEDOUT''),
      getAppServicePlan = Inl (Rejected ''ETIMEDOUT''),
      getSiteConfig = Inl (Rejected ''ETIMEDOUT''),
      getSourceControl = Inl (Rejected ''ETIMEDOUT''),
      createFunctionsTreeItem = Inl (Rejected ''ETIMEDOUT''),
      createProxiesTreeItem = Inl (Rejected ''ETIMEDOUT'')\<rparr>"

definition example_node :: "(json option \<times> FuncVersion) SlotTreeItemBase" where
  "example_node = constructor example_client 0"

definition example_calls :: "(operation \<times> SiteClient) list" where
  "example_calls =
     [(GetHostJson, example_client), (GetHostJson, failing_client),
      (GetVersion, failing_client), (GetIsConsumption, example_client),
      (LoadMoreChildren, example_client), (GetIsConsumption, failing_client),
      (GetVersion, example_client)]"

text \<open>
  A value for each context value of the tree item classes, a stand-in for the
  matching of the deployment pattern \<^verbatim>\<open>deployment/.*\<close> (the text contains \<^verbatim>\<open>deployment/\<close>) and a
  stand-in for \<^verbatim>\<open>matchesAnyPart\<close> (the pattern's source contains one of the parts).
\<close>

definition example_contextValues :: contextValues where
  "example_contextValues =
     \<lparr>AppSettingsTreeItem_contextValue = Str ''applicationSettings'',
      AppSettingTreeItem_contextValue = Str ''applicationSettingItem'',
      ProxiesTreeItem_contextValue = Str ''azFuncProxies'',
      ProxyTreeItem_contextValue = Str ''azFuncProxy'',
      ProxyTreeItem_readOnlyContextValue = Str ''azFuncProxyReadOnly'',
      DeploymentsTreeItem_contextValueConnected = Str ''deploymentsConnected'',
      DeploymentsTreeItem_contextValueUnconnected = Str ''deploymentsUnconnected'',
      DeploymentTreeItem_contextValue = RegExp 0 ''deployment/.*'',
      RegExp_test = (\<lambda>r s. sublist ''deployment/'' s),
      matchesAnyPart = (\<lambda>r parts. case r of RegExp n source \<Rightarrow> list_ex (\<lambda>p. sublist p source) parts),
      ProjectResource_Functions = ''Functions'',
      ProjectResource_Function = ''Function'',
      ProjectResource_Bindings = ''Bindings'',
      ProjectResource_Binding = ''Binding''\<rparr>"

text \<open>
  The test of \<^verbatim>\<open>getIsConsumption\<close> as the specification words it: no plan, no SKU, no tier,
  or a tier that is \<^verbatim>\<open>dynamic\<close> up to case. A plan whose tier is the empty string is used to
  compare the two.
\<close>

definition consumption_as_specified :: "AppServicePlan option \<Rightarrow> bool" where
  "consumption_as_specified asp =
     (case asp of
        None \<Rightarrow> True
      | Some plan \<Rightarrow>
          (case sku plan of
             None \<Rightarrow> True
           | Some s \<Rightarrow> (case tier s of None \<Rightarrow> True | Some t \<Rightarrow> toLowerCase t = ''dynamic'')))"

definition empty_tier_plan :: AppServicePlan where
  "empty_tier_plan = \<lparr>sku = Some \<lparr>tier = Some []\<rparr>\<rparr>"

definition empty_tier_client :: SiteClient where
  "empty_tier_client = example_client\<lparr>getAppServicePlan := Inr (Some empty_tier_plan)\<rparr>"

subsection \<open>Auxiliary notions for the proofs\<close>

text \<open>A cache slot that is empty stands for one fetch still to come.\<close>

definition pending :: "'a option \<Rightarrow> nat" where
  "pending x = (if x = None then 1 else 0)"


section \<open>Properties of the ignore-file merge\<close>

lemma includes_append_right: "str_includes s l \<Longrightarrow> str_includes (s @ t) l"
  by (simp add: str_includes_def sublist_append)

lemma includes_appended: "str_includes (s @ e @ l) l"
  by (simp add: str_includes_def sublist_append)

lemma includes_self: "str_includes s s"
  by (simp add: str_includes_def)

lemma includes_empty: "str_includes s []"
  by (simp add: str_includes_def)

lemma gitignore_loop_extends:
  "\<exists>t. fst (gitignore_loop eol lines c w) = c @ t"
proof (induction lines arbitrary: c w)
  case Nil
  show ?case by simp
next
  case (Cons line lines)
  show ?case
  proof (cases "str_includes c line")
    case True
    with Cons.IH [of c w] show ?thesis by simp
  next
    case False
    from Cons.IH [of "c @ eol @ line" True] obtain t
      where "fst (gitignore_loop eol lines (c @ eol @ line) True) = (c @ eol @ line) @ t" ..
    with False show ?thesis by simp
  qed
qed

lemma gitignore_loop_keeps:
  assumes "str_includes c l"
  shows "str_includes (fst (gitignore_loop eol lines c w)) l"
proof -
  obtain t where "fst (gitignore_loop eol lines c w) = c @ t"
    using gitignore_loop_extends by blast
  with assms show ?thesis by (simp add: includes_append_right)
qed

lemma gitignore_loop_complete:
  "l \<in> set lines \<Longrightarrow> str_includes (fst (gitignore_loop eol lines c w)) l"
proof (induction lines arbitrary: c w)
  case Nil
  then show ?case by simp
next
  case (Cons line lines)
  show ?case
  proof (cases "l = line")
    case True
    show ?thesis
    proof (cases "str_includes c line")
      case True
      with \<open>l = line\<close> show ?thesis by (simp add: gitignore_loop_keeps)
    next
      case False
      have "str_includes (c @ eol @ line) line" by (rule includes_appended)
      with False \<open>l = line\<close> show ?thesis by (simp add: gitignore_loop_keeps)
    qed
  next
    case False
    with Cons.prems have "l \<in> set lines" by simp
    from Cons.IH [OF this] show ?thesis by simp
  qed
qed

lemma gitignore_loop_fixed:
  "\<forall>l \<in> set lines. str_includes c l \<Longrightarrow> gitignore_loop eol lines c w = (c, w)"
  by (induction lines arbitrary: c w) simp_all

lemma gitignore_loop_again:
  "gitignore_loop eol lines (fst (gitignore_loop eol lines c w)) w' =
     (fst (gitignore_loop eol lines c w), w')"
  by (rule gitignore_loop_fixed) (simp add: gitignore_loop_complete)

lemma ensureGitIgnoreContents_again:
  "ensureGitIgnoreContents os g p ls (ensureGitIgnoreContents os g p ls fs) =
     ensureGitIgnoreContents os g p ls fs"
proof (cases "files fs (path_join os p g)")
  case None
  then show ?thesis by (simp add: ensureGitIgnoreContents_def pathExists_def)
next
  case (Some c)
  obtain c' w where loop: "gitignore_loop (EOL os) ls c False = (c', w)"
    by (cases "gitignore_loop (EOL os) ls c False")
  then have c': "c' = fst (gitignore_loop (EOL os) ls c False)" by simp
  show ?thesis
  proof (cases w)
    case True
    have "gitignore_loop (EOL os) ls c' False = (c', False)"
      unfolding c' by (rule gitignore_loop_again)
    with Some loop True show ?thesis
      by (simp add: ensureGitIgnoreContents_def pathExists_def writeFile_def)
  next
    case False
    with Some loop show ?thesis
      by (simp add: ensureGitIgnoreContents_def pathExists_def)
  qed
qed

lemma ensureVenvInFuncIgnore_again:
  "files (ensureVenvInFuncIgnore os p v (ensureVenvInFuncIgnore os p v fs)) =
     files (ensureVenvInFuncIgnore os p v fs)"
  by (auto simp: ensureVenvInFuncIgnore_def pathExists_def writeFile_def Let_def
        includes_appended includes_self includes_empty
      split: option.splits)

lemma ensureVenvInFuncIgnore_rewrites:
  "\<exists>contents.
     files (ensureVenvInFuncIgnore os p v fs) (path_join os p ''.funcignore'') = Some contents
     \<and> written (ensureVenvInFuncIgnore os p v (ensureVenvInFuncIgnore os p v fs)) =
         written (ensureVenvInFuncIgnore os p v fs) @ [(path_join os p ''.funcignore'', contents)]"
  by (auto simp: ensureVenvInFuncIgnore_def pathExists_def writeFile_def Let_def
        includes_appended includes_self includes_empty
      split: option.splits)

text \<open>
  Claim C1. Both merge operations are idempotent on file content: whatever the platform, the
  project path, the venv name and the lines, a second run with the same arguments leaves the
  contents of every file as the first run left them. For \<^verbatim>\<open>ensureGitIgnoreContents\<close> the second
  run leaves the whole file system as it is, the record of writes included: it issues no
  write. \<^verbatim>\<open>ensureVenvInFuncIgnore\<close> calls \<^verbatim>\<open>writeFile\<close> unconditionally; what its second run
  writes is the content that the file has already, so the file is not changed.
\<close>

theorem ignore_merge_idempotent:
  "ensureGitIgnoreContents os g p ls (ensureGitIgnoreContents os g p ls fs) =
     ensureGitIgnoreContents os g p ls fs
   \<and> files (ensureVenvInFuncIgnore os p v (ensureVenvInFuncIgnore os p v fs)) =
       files (ensureVenvInFuncIgnore os p v fs)
   \<and> (\<exists>contents.
         files (ensureVenvInFuncIgnore os p v fs) (path_join os p ''.funcignore'') = Some contents
         \<and> written (ensureVenvInFuncIgnore os p v (ensureVenvInFuncIgnore os p v fs)) =
             written (ensureVenvInFuncIgnore os p v fs) @
             [(path_join os p ''.funcignore'', contents)])"
  using ensureVenvInFuncIgnore_rewrites [of os p v fs]
  by (simp add: ensureGitIgnoreContents_again ensureVenvInFuncIgnore_again)


section \<open>Properties of the task list\<close>

lemma getTasks_both:
  "truthy v \<Longrightarrow>
   getTasks k True v =
     [\<lparr>label = None, type = func k, command = Some (hostStartCommand k),
       problemMatcher = Matcher (funcWatchProblemMatcher k), isBackground = Some True,
       dependsOn = Some (extInstallTaskName k), osx = None, windows = None, linux = None\<rparr>,
      \<lparr>label = None, type = func k, command = Some (extInstallCommand k),
       problemMatcher = Matchers [], isBackground = None, dependsOn = Some ''pipInstall'',
       osx = None, windows = None, linux = None\<rparr>,
      \<lparr>label = Some ''pipInstall'', type = ''shell'', command = None,
       problemMatcher = Matchers [], isBackground = None, dependsOn = None,
       osx = Some (convertToVenvPythonCommand k ''pip install -r requirements.txt''
                (''${config:'' @ ext_prefix k @ ''.'' @ pythonVenvSetting k @ ''}'') MacOS),
       windows = Some (convertToVenvPythonCommand k ''pip install -r requirements.txt''
                (''${config:'' @ ext_prefix k @ ''.'' @ pythonVenvSetting k @ ''}'') Windows),
       linux = Some (convertToVenvPythonCommand k ''pip install -r requirements.txt''
                (''${config:'' @ ext_prefix k @ ''.'' @ pythonVenvSetting k @ ''}'') Linux)\<rparr>]"
  by (simp add: getTasks_def Let_def)

lemma getTasks_venv_only:
  "truthy v \<Longrightarrow>
   getTasks k False v =
     [\<lparr>label = None, type = func k, command = Some (hostStartCommand k),
       problemMatcher = Matcher (funcWatchProblemMatcher k), isBackground = Some True,
       dependsOn = Some ''pipInstall'', osx = None, windows = None, linux = None\<rparr>,
      \<lparr>label = Some ''pipInstall'', type = ''shell'', command = None,
       problemMatcher = Matchers [], isBackground = None, dependsOn = None,
       osx = Some (convertToVenvPythonCommand k ''pip install -r requirements.txt''
                (''${config:'' @ ext_prefix k @ ''.'' @ pythonVenvSetting k @ ''}'') MacOS),
       windows = Some (convertToVenvPythonCommand k ''pip install -r requirements.txt''
                (''${config:'' @ ext_prefix k @ ''.'' @ pythonVenvSetting k @ ''}'') Windows),
       linux = Some (convertToVenvPythonCommand k ''pip install -r requirements.txt''
                (''${config:'' @ ext_prefix k @ ''.'' @ pythonVenvSetting k @ ''}'') Linux)\<rparr>]"
  by (simp add: getTasks_def Let_def)

lemma getTasks_no_venv:
  "\<not> truthy v \<Longrightarrow>
   getTasks k r v =
     [\<lparr>label = None, type = func k, command = Some (hostStartCommand k),
       problemMatcher = Matcher (funcWatchProblemMatcher k), isBackground = Some True,
       dependsOn = (if r then Some (extInstallTaskName k) else None),
       osx = None, windows = None, linux = None\<rparr>]"
  by (simp add: getTasks_def Let_def)


text \<open>
  Claim C4, as amended. The first task of \<^verbatim>\<open>getTasks\<close> is always the host-start task. With a
  venv name that is defined and not empty and with extension install required, the list is
  host-start, extension-install, \<^verbatim>\<open>pipInstall\<close>: host-start depends on the extension-install
  task name, the extension-install task depends on \<^verbatim>\<open>pipInstall\<close>, and \<^verbatim>\<open>pipInstall\<close> depends on
  nothing, so the order of execution is package install, extension install, host start. With
  such a venv name only, the list is host-start depending on \<^verbatim>\<open>pipInstall\<close>, and \<^verbatim>\<open>pipInstall\<close>.
  Without one, the list is the host-start task alone, which depends on the
  extension-install task name when extension install is required and on nothing otherwise.
  Whenever there is such a venv name the last task is the shell task \<^verbatim>\<open>pipInstall\<close> with one
  command for each of macOS, Windows and Linux.
\<close>

theorem getTasks_chain:
  "type (hd (getTasks k r v)) = func k
   \<and> command (hd (getTasks k r v)) = Some (hostStartCommand k)
   \<and> (truthy v \<and> r \<longrightarrow>
        map command (getTasks k r v) = [Some (hostStartCommand k), Some (extInstallCommand k), None]
        \<and> map label (getTasks k r v) = [None, None, Some ''pipInstall'']
        \<and> map dependsOn (getTasks k r v) = [Some (extInstallTaskName k), Some ''pipInstall'', None])
   \<and> (truthy v \<and> \<not> r \<longrightarrow>
        map command (getTasks k r v) = [Some (hostStartCommand k), None]
        \<and> map label (getTasks k r v) = [None, Some ''pipInstall'']
        \<and> map dependsOn (getTasks k r v) = [Some ''pipInstall'', None])
   \<and> (\<not> truthy v \<longrightarrow>
        length (getTasks k r v) = 1
        \<and> dependsOn (hd (getTasks k r v)) = (if r then Some (extInstallTaskName k) else None))
   \<and> (truthy v \<longrightarrow>
        type (last (getTasks k r v)) = ''shell''
        \<and> osx (last (getTasks k r v)) =
            Some (convertToVenvPythonCommand k ''pip install -r requirements.txt''
                    (''${config:'' @ ext_prefix k @ ''.'' @ pythonVenvSetting k @ ''}'') MacOS)
        \<and> windows (last (getTasks k r v)) =
            Some (convertToVenvPythonCommand k ''pip install -r requirements.txt''
                    (''${config:'' @ ext_prefix k @ ''.'' @ pythonVenvSetting k @ ''}'') Windows)
        \<and> linux (last (getTasks k r v)) =
            Some (convertToVenvPythonCommand k ''pip install -r requirements.txt''
                    (''${config:'' @ ext_prefix k @ ''.'' @ pythonVenvSetting k @ ''}'') Linux))"
proof (cases "truthy v")
  case True
  then show ?thesis
    by (cases r) (simp_all add: getTasks_both getTasks_venv_only)
next
  case False
  then show ?thesis by (simp add: getTasks_no_venv)
qed

text \<open>
  The chain as the claim words it (extension install, then package install, then host start;
  and no dependency without a venv) fails on the code: with the venv \<^verbatim>\<open>env\<close> and extension
  install required, host-start waits for the extension-install task and not for
  \<^verbatim>\<open>pipInstall\<close>, the extension-install task waits for \<^verbatim>\<open>pipInstall\<close>, and \<^verbatim>\<open>pipInstall\<close> waits for
  nothing; without a venv and with extension install required, the single host-start task
  has a dependency.
\<close>

theorem getTasks_chain_counterexample:
  "dependsOn (getTasks example_constants True (Some ''env'') ! 0) \<noteq> Some ''pipInstall''
   \<and> command (getTasks example_constants True (Some ''env'') ! 0) = Some ''host start''
   \<and> dependsOn (getTasks example_constants True (Some ''env'') ! 0) = Some ''func: extensions install''
   \<and> command (getTasks example_constants True (Some ''env'') ! 1) = Some ''extensions install''
   \<and> dependsOn (getTasks example_constants True (Some ''env'') ! 1) = Some ''pipInstall''
   \<and> label (getTasks example_constants True (Some ''env'') ! 2) = Some ''pipInstall''
   \<and> dependsOn (getTasks example_constants True (Some ''env'') ! 2) = None
   \<and> length (getTasks example_constants True None) = 1
   \<and> dependsOn (getTasks example_constants True None ! 0) = Some ''func: extensions install''"
  by (simp add: getTasks_def example_constants_def truthy_def Let_def)

theorem getTasks_chain_witness:
  "truthy (Some ''env'') \<and> \<not> truthy None
   \<and> map dependsOn (getTasks example_constants True (Some ''env'')) =
        [Some ''func: extensions install'', Some ''pipInstall'', None]
   \<and> map dependsOn (getTasks example_constants False (Some ''env'')) = [Some ''pipInstall'', None]
   \<and> length (getTasks example_constants False None) = 1
   \<and> dependsOn (hd (getTasks example_constants False None)) = None
   \<and> dependsOn (hd (getTasks example_constants True None)) = Some ''func: extensions install''
   \<and> osx (last (getTasks example_constants False (Some ''env''))) =
        Some ''darwin ${config:azureFunctions.pythonVenv} python -m pip install -r requirements.txt''
   \<and> windows (last (getTasks example_constants False (Some ''env''))) =
        Some ''win32 ${config:azureFunctions.pythonVenv} python -m pip install -r requirements.txt''
   \<and> linux (last (getTasks example_constants False (Some ''env''))) =
        Some ''linux ${config:azureFunctions.pythonVenv} python -m pip install -r requirements.txt''"
proof -
  have t: "truthy (Some ''env'')" and f: "\<not> truthy None"
    by (simp_all add: truthy_def)
  from getTasks_chain [of example_constants True "Some ''env''"]
    getTasks_chain [of example_constants False "Some ''env''"]
    getTasks_chain [of example_constants False None]
    getTasks_chain [of example_constants True None] t f
  show ?thesis by (simp add: example_constants_def platform_name_def)
qed


section \<open>Properties of the cached accessors\<close>


lemmas async_defs = await_def try_catch_def resolve_def assign_def read_def remote_def

lemma refreshImpl_eq: "refreshImpl c w = (Inr (), w\<lparr>cachedVersion := None, cachedHostJson := None, cachedIsConsumption := None,
   calls := calls w @ [Call_getState], state := (case getState c of Inl e \<Rightarrow> Some ''Unknown'' | Inr s \<Rightarrow> s)\<rparr>)"
  by (simp add: refreshImpl_def async_defs split: sum.splits)

lemma getVersion_hit: "cachedVersion w = Some v \<Longrightarrow> getVersion d c w = (Inr v, w)"
  by (simp add: getVersion_def async_defs)

lemma getVersion_miss: "cachedVersion w = None \<Longrightarrow> getVersion d c w =
   (let result = (case listApplicationSettings c of
                    Inl e \<Rightarrow> latestGAVersion d
                  | Inr a \<Rightarrow> (case tryParseFuncVersion d (FUNCTIONS_EXTENSION_VERSION a) of
                                None \<Rightarrow> latestGAVersion d | Some v \<Rightarrow> v))
    in (Inr result, w\<lparr>cachedVersion := Some result, calls := calls w @ [Call_listApplicationSettings]\<rparr>))"
  by (simp add: getVersion_def async_defs Let_def split: sum.splits option.splits)

lemma getIsConsumption_hit: "cachedIsConsumption w = Some v \<Longrightarrow> getIsConsumption c w = (Inr v, w)"
  by (simp add: getIsConsumption_def async_defs)

lemma getIsConsumption_miss: "cachedIsConsumption w = None \<Longrightarrow> getIsConsumption c w =
   (let result = (case getAppServicePlan c of Inl e \<Rightarrow> True | Inr asp \<Rightarrow> isConsumptionPlan asp)
    in (Inr result, w\<lparr>cachedIsConsumption := Some result, calls := calls w @ [Call_getAppServicePlan]\<rparr>))"
  by (simp add: getIsConsumption_def async_defs Let_def split: sum.splits option.splits)

lemma getHostJson_hit: "cachedHostJson w = Some v \<Longrightarrow> getHostJson d c w = (Inr v, w)"
  by (simp add: getHostJson_def async_defs)

lemma getHostJson_miss: "cachedHostJson w = None \<Longrightarrow> getHostJson d c w =
   (let data = (case getKuduClient c of Inl e \<Rightarrow> None
                | Inr kc \<Rightarrow> (case getHostSettings c of Inl e \<Rightarrow> None | Inr j \<Rightarrow> Some j));
        w1 = w\<lparr>calls := calls w @ (case getKuduClient c of Inl e \<Rightarrow> [Call_getKuduClient]
                                     | Inr kc \<Rightarrow> [Call_getKuduClient, Call_getHostSettings])\<rparr>;
        version = (case fst (getVersion d c w1) of Inr v \<Rightarrow> v | Inl e \<Rightarrow> latestGAVersion d);
        w2 = snd (getVersion d c w1);
        result = parseHostJson d data version
    in (Inr result, w2\<lparr>cachedHostJson := Some result\<rparr>))"
  apply (cases "cachedVersion w")
   apply (simp_all add: getHostJson_def getVersion_hit getVersion_miss async_defs Let_def split: sum.splits option.splits)
  done


lemmas load_defs = loadMoreChildrenImpl_def new_DeploymentsTreeItem_def
  RemoteFunctionsTreeItem_createFunctionsTreeItem_def ProxiesTreeItem_createProxiesTreeItem_def

lemma load_frame:
  "cachedVersion (snd (loadMoreChildrenImpl c w)) = cachedVersion w"
  "cachedHostJson (snd (loadMoreChildrenImpl c w)) = cachedHostJson w"
  "cachedIsConsumption (snd (loadMoreChildrenImpl c w)) = cachedIsConsumption w"
  by (simp_all add: load_defs async_defs split: sum.splits option.splits prod.splits)

lemma load_calls:
  "\<exists>ks. calls (snd (loadMoreChildrenImpl c w)) = calls w @ ks \<and>
        set ks \<subseteq> {Call_getSiteConfig, Call_getSourceControl,
                  Call_createFunctionsTreeItem, Call_createProxiesTreeItem}"
  by (simp add: load_defs async_defs split: sum.splits option.splits prod.splits)

lemma count_list_notin: "x \<notin> set ks \<Longrightarrow> count_list (xs @ ks) x = count_list xs x"
  by (induction ks arbitrary: xs) (auto simp: count_list_append)

lemma load_count:
  assumes "x \<notin> {Call_getSiteConfig, Call_getSourceControl,
                  Call_createFunctionsTreeItem, Call_createProxiesTreeItem}"
  shows "count_list (calls (snd (loadMoreChildrenImpl c w))) x = count_list (calls w) x"
proof -
  obtain ks where "calls (snd (loadMoreChildrenImpl c w)) = calls w @ ks"
    and "set ks \<subseteq> {Call_getSiteConfig, Call_getSourceControl,
                  Call_createFunctionsTreeItem, Call_createProxiesTreeItem}"
    using load_calls by blast
  moreover from this(2) assms have "x \<notin> set ks" by auto
  ultimately show ?thesis by (simp add: count_list_notin)
qed


lemma budget_step:
  assumes "fst mc \<noteq> Refresh"
  shows "count_list (calls (invoke d mc w)) Call_listApplicationSettings + pending (cachedVersion (invoke d mc w))
           \<le> count_list (calls w) Call_listApplicationSettings + pending (cachedVersion w)"
    and "count_list (calls (invoke d mc w)) Call_getKuduClient + pending (cachedHostJson (invoke d mc w))
           \<le> count_list (calls w) Call_getKuduClient + pending (cachedHostJson w)"
    and "count_list (calls (invoke d mc w)) Call_getHostSettings + pending (cachedHostJson (invoke d mc w))
           \<le> count_list (calls w) Call_getHostSettings + pending (cachedHostJson w)"
    and "count_list (calls (invoke d mc w)) Call_getAppServicePlan + pending (cachedIsConsumption (invoke d mc w))
           \<le> count_list (calls w) Call_getAppServicePlan + pending (cachedIsConsumption w)"
proof -
  show "count_list (calls (invoke d mc w)) Call_listApplicationSettings + pending (cachedVersion (invoke d mc w))
           \<le> count_list (calls w) Call_listApplicationSettings + pending (cachedVersion w)"
    using assms
    apply (cases "fst mc"; cases "cachedVersion w"; cases "cachedHostJson w"; cases "cachedIsConsumption w")
    apply (simp_all add: invoke_def pending_def getVersion_hit getVersion_miss getHostJson_hit getHostJson_miss
        getIsConsumption_hit getIsConsumption_miss load_frame load_count Let_def split: sum.splits)
    done
  show "count_list (calls (invoke d mc w)) Call_getKuduClient + pending (cachedHostJson (invoke d mc w))
           \<le> count_list (calls w) Call_getKuduClient + pending (cachedHostJson w)"
    using assms
    apply (cases "fst mc"; cases "cachedVersion w"; cases "cachedHostJson w"; cases "cachedIsConsumption w")
    apply (simp_all add: invoke_def pending_def getVersion_hit getVersion_miss getHostJson_hit getHostJson_miss
        getIsConsumption_hit getIsConsumption_miss load_frame load_count Let_def split: sum.splits)
    done
  show "count_list (calls (invoke d mc w)) Call_getHostSettings + pending (cachedHostJson (invoke d mc w))
           \<le> count_list (calls w) Call_getHostSettings + pending (cachedHostJson w)"
    using assms
    apply (cases "fst mc"; cases "cachedVersion w"; cases "cachedHostJson w"; cases "cachedIsConsumption w")
    apply (simp_all add: invoke_def pending_def getVersion_hit getVersion_miss getHostJson_hit getHostJson_miss
        getIsConsumption_hit getIsConsumption_miss load_frame load_count Let_def split: sum.splits)
    done
  show "count_list (calls (invoke d mc w)) Call_getAppServicePlan + pending (cachedIsConsumption (invoke d mc w))
           \<le> count_list (calls w) Call_getAppServicePlan + pending (cachedIsConsumption w)"
    using assms
    apply (cases "fst mc"; cases "cachedVersion w"; cases "cachedHostJson w"; cases "cachedIsConsumption w")
    apply (simp_all add: invoke_def pending_def getVersion_hit getVersion_miss getHostJson_hit getHostJson_miss
        getIsConsumption_hit getIsConsumption_miss load_frame load_count Let_def split: sum.splits)
    done
qed

lemma cache_kept_step:
  assumes "fst mc \<noteq> Refresh"
  shows "cachedVersion w = Some v \<Longrightarrow> cachedVersion (invoke d mc w) = Some v"
    and "cachedHostJson w = Some h \<Longrightarrow> cachedHostJson (invoke d mc w) = Some h"
    and "cachedIsConsumption w = Some b \<Longrightarrow> cachedIsConsumption (invoke d mc w) = Some b"
  using assms
    apply (cases "fst mc"; cases "cachedVersion w"; cases "cachedHostJson w"; cases "cachedIsConsumption w";
       simp add: invoke_def getVersion_hit getVersion_miss getHostJson_hit getHostJson_miss
        getIsConsumption_hit getIsConsumption_miss load_frame Let_def split: sum.splits)+
  done


lemma budget_run:
  assumes "Refresh \<notin> set (map fst ms)"
  shows "count_list (calls (run d ms w)) Call_listApplicationSettings + pending (cachedVersion (run d ms w))
           \<le> count_list (calls w) Call_listApplicationSettings + pending (cachedVersion w)
       \<and> count_list (calls (run d ms w)) Call_getKuduClient + pending (cachedHostJson (run d ms w))
           \<le> count_list (calls w) Call_getKuduClient + pending (cachedHostJson w)
       \<and> count_list (calls (run d ms w)) Call_getHostSettings + pending (cachedHostJson (run d ms w))
           \<le> count_list (calls w) Call_getHostSettings + pending (cachedHostJson w)
       \<and> count_list (calls (run d ms w)) Call_getAppServicePlan + pending (cachedIsConsumption (run d ms w))
           \<le> count_list (calls w) Call_getAppServicePlan + pending (cachedIsConsumption w)"
  using assms
proof (induction ms arbitrary: w)
  case Nil
  show ?case by simp
next
  case (Cons mc ms)
  then have nr: "fst mc \<noteq> Refresh" and rest: "Refresh \<notin> set (map fst ms)" by auto
  from Cons.IH [OF rest, of "invoke d mc w"] budget_step [OF nr, of d w]
  show ?case by (simp del: count_list.simps)
qed

lemma cache_kept_run:
  assumes "Refresh \<notin> set (map fst ms)"
  shows "(cachedVersion w = Some v \<longrightarrow> cachedVersion (run d ms w) = Some v)
       \<and> (cachedHostJson w = Some h \<longrightarrow> cachedHostJson (run d ms w) = Some h)
       \<and> (cachedIsConsumption w = Some b \<longrightarrow> cachedIsConsumption (run d ms w) = Some b)"
  using assms
proof (induction ms arbitrary: w)
  case Nil
  show ?case by simp
next
  case (Cons mc ms)
  then have nr: "fst mc \<noteq> Refresh" and rest: "Refresh \<notin> set (map fst ms)" by auto
  from Cons.IH [OF rest, of "invoke d mc w"] cache_kept_step [OF nr, of w _ d]
  show ?case by simp
qed

lemma returned_is_cached:
  "fst (getVersion d c w) = Inr v \<Longrightarrow> cachedVersion (snd (getVersion d c w)) = Some v"
  "fst (getHostJson d c w) = Inr h \<Longrightarrow> cachedHostJson (snd (getHostJson d c w)) = Some h"
  "fst (getIsConsumption c w) = Inr b \<Longrightarrow> cachedIsConsumption (snd (getIsConsumption c w)) = Some b"
  by (cases "cachedVersion w"; cases "cachedHostJson w"; cases "cachedIsConsumption w";
      simp add: getVersion_hit getVersion_miss getHostJson_hit getHostJson_miss
        getIsConsumption_hit getIsConsumption_miss Let_def)+

text \<open>
  Claim C2. In any sequence of calls on a node that contains no \<^verbatim>\<open>refresh\<close>, whatever the
  remote side answers and however often the accessors are called, \<^verbatim>\<open>getVersion\<close> (also when
  \<^verbatim>\<open>getHostJson\<close> calls it) issues \<^verbatim>\<open>listApplicationSettings\<close> at most once, \<^verbatim>\<open>getHostJson\<close> issues
  \<^verbatim>\<open>getKuduClient\<close> and \<^verbatim>\<open>getHostSettings\<close> at most once each, and \<^verbatim>\<open>getIsConsumption\<close> issues
  \<^verbatim>\<open>getAppServicePlan\<close> at most once. Once an accessor has returned a value, every later call
  of it in such a sequence returns that value and leaves the node as it is, the record of
  remote operations included.
\<close>

theorem cached_accessors_fetch_once:
  assumes "Refresh \<notin> set (map fst ms)"
  shows "count_list (calls (run d ms w)) Call_listApplicationSettings
           \<le> Suc (count_list (calls w) Call_listApplicationSettings)
       \<and> count_list (calls (run d ms w)) Call_getKuduClient
           \<le> Suc (count_list (calls w) Call_getKuduClient)
       \<and> count_list (calls (run d ms w)) Call_getHostSettings
           \<le> Suc (count_list (calls w) Call_getHostSettings)
       \<and> count_list (calls (run d ms w)) Call_getAppServicePlan
           \<le> Suc (count_list (calls w) Call_getAppServicePlan)
       \<and> (fst (getVersion d c0 w) = Inr v \<longrightarrow>
            getVersion d c (run d ms (snd (getVersion d c0 w))) =
              (Inr v, run d ms (snd (getVersion d c0 w))))
       \<and> (fst (getHostJson d c0 w) = Inr h \<longrightarrow>
            getHostJson d c (run d ms (snd (getHostJson d c0 w))) =
              (Inr h, run d ms (snd (getHostJson d c0 w))))
       \<and> (fst (getIsConsumption c0 w) = Inr b \<longrightarrow>
            getIsConsumption c (run d ms (snd (getIsConsumption c0 w))) =
              (Inr b, run d ms (snd (getIsConsumption c0 w))))"
proof -
  have counts: "count_list (calls (run d ms w)) Call_listApplicationSettings
           \<le> Suc (count_list (calls w) Call_listApplicationSettings)
       \<and> count_list (calls (run d ms w)) Call_getKuduClient
           \<le> Suc (count_list (calls w) Call_getKuduClient)
       \<and> count_list (calls (run d ms w)) Call_getHostSettings
           \<le> Suc (count_list (calls w) Call_getHostSettings)
       \<and> count_list (calls (run d ms w)) Call_getAppServicePlan
           \<le> Suc (count_list (calls w) Call_getAppServicePlan)"
    using budget_run [OF assms, of d w] by (simp add: pending_def split: if_splits)
  have v: "getVersion d c (run d ms (snd (getVersion d c0 w))) =
              (Inr v, run d ms (snd (getVersion d c0 w)))" if "fst (getVersion d c0 w) = Inr v"
    using cache_kept_run [OF assms, of "snd (getVersion d c0 w)" v d] returned_is_cached(1) [OF that]
    by (simp add: getVersion_hit)
  have h: "getHostJson d c (run d ms (snd (getHostJson d c0 w))) =
              (Inr h, run d ms (snd (getHostJson d c0 w)))" if "fst (getHostJson d c0 w) = Inr h"
    using cache_kept_run [OF assms, of "snd (getHostJson d c0 w)" _ d h] returned_is_cached(2) [OF that]
    by (simp add: getHostJson_hit)
  have b: "getIsConsumption c (run d ms (snd (getIsConsumption c0 w))) =
              (Inr b, run d ms (snd (getIsConsumption c0 w)))" if "fst (getIsConsumption c0 w) = Inr b"
    using cache_kept_run [OF assms, of "snd (getIsConsumption c0 w)" _ d _ b] returned_is_cached(3) [OF that]
    by (simp add: getIsConsumption_hit)
  from counts v h b show ?thesis by blast
qed


lemmas example_defs = example_deps_def example_client_def failing_client_def example_node_def
  example_calls_def constructor_def

theorem cached_accessors_fetch_once_witness:
  "Refresh \<notin> set (map fst example_calls)
   \<and> fst (getVersion example_deps example_client example_node) = Inr FuncVersion_v2
   \<and> count_list (calls (run example_deps example_calls example_node)) Call_listApplicationSettings \<le> 1
   \<and> count_list (calls (run example_deps example_calls example_node)) Call_getHostSettings \<le> 1
   \<and> getVersion example_deps failing_client
         (run example_deps example_calls (snd (getVersion example_deps example_client example_node))) =
       (Inr FuncVersion_v2,
        run example_deps example_calls (snd (getVersion example_deps example_client example_node)))"
proof -
  have nr: "Refresh \<notin> set (map fst example_calls)"
    by (simp add: example_calls_def)
  have v: "fst (getVersion example_deps example_client example_node) = Inr FuncVersion_v2"
    by (simp add: getVersion_miss example_defs FUNCTIONS_EXTENSION_VERSION_def)
  have e: "calls example_node = []"
    by (simp add: example_defs)
  from cached_accessors_fetch_once [OF nr, of example_deps example_node example_client
      FuncVersion_v2 failing_client] nr v e
  show ?thesis by simp
qed


section \<open>Refresh\<close>

text \<open>
  Claim C3. \<^verbatim>\<open>refreshImpl\<close> empties the three caches together: after it, whatever the remote
  side answered, the cached version, the cached host configuration and the cached
  consumption flag are all absent, and nothing that was cached before has any influence on
  the node it leaves. The next call of any of the three accessors therefore fetches: the
  record of remote operations grows by \<^verbatim>\<open>listApplicationSettings\<close> for \<^verbatim>\<open>getVersion\<close>, by
  \<^verbatim>\<open>getAppServicePlan\<close> for \<^verbatim>\<open>getIsConsumption\<close>, and by \<^verbatim>\<open>getKuduClient\<close>, \<^verbatim>\<open>getHostSettings\<close> (when the
  Kudu client was obtained) and \<^verbatim>\<open>listApplicationSettings\<close> for \<^verbatim>\<open>getHostJson\<close>; and the value
  returned is computed from the answers given at that call.
\<close>

theorem refresh_invalidates_caches:
  fixes w :: "'h SlotTreeItemBase" and c c' :: SiteClient and d :: "'h deps"
  defines "w' \<equiv> snd (refreshImpl c w)"
  defines "fresh_version \<equiv>
    (case listApplicationSettings c' of
       Inl e \<Rightarrow> latestGAVersion d
     | Inr a \<Rightarrow> (case tryParseFuncVersion d (FUNCTIONS_EXTENSION_VERSION a) of
                   None \<Rightarrow> latestGAVersion d | Some v \<Rightarrow> v))"
  shows "cachedVersion w' = None \<and> cachedHostJson w' = None \<and> cachedIsConsumption w' = None
    \<and> refreshImpl c (w\<lparr>cachedVersion := a, cachedHostJson := b, cachedIsConsumption := x\<rparr>) =
        refreshImpl c w
    \<and> calls (snd (getVersion d c' w')) = calls w' @ [Call_listApplicationSettings]
    \<and> fst (getVersion d c' w') = Inr fresh_version
    \<and> calls (snd (getIsConsumption c' w')) = calls w' @ [Call_getAppServicePlan]
    \<and> fst (getIsConsumption c' w') =
        Inr (case getAppServicePlan c' of Inl e \<Rightarrow> True | Inr asp \<Rightarrow> isConsumptionPlan asp)
    \<and> calls (snd (getHostJson d c' w')) =
        calls w' @ (case getKuduClient c' of
                      Inl e \<Rightarrow> [Call_getKuduClient]
                    | Inr kuduClient \<Rightarrow> [Call_getKuduClient, Call_getHostSettings])
                 @ [Call_listApplicationSettings]
    \<and> fst (getHostJson d c' w') =
        Inr (parseHostJson d
               (case getKuduClient c' of
                  Inl e \<Rightarrow> None
                | Inr kuduClient \<Rightarrow>
                    (case getHostSettings c' of Inl e \<Rightarrow> None | Inr data \<Rightarrow> Some data))
               fresh_version)"
proof -
  have none: "cachedVersion w' = None" "cachedHostJson w' = None" "cachedIsConsumption w' = None"
    by (simp_all add: w'_def refreshImpl_eq)
  have same: "refreshImpl c (w\<lparr>cachedVersion := a, cachedHostJson := b, cachedIsConsumption := x\<rparr>) =
        refreshImpl c w"
    by (simp add: refreshImpl_eq)
  have v: "calls (snd (getVersion d c' w')) = calls w' @ [Call_listApplicationSettings]"
    "fst (getVersion d c' w') = Inr fresh_version"
    using none(1) by (simp_all add: getVersion_miss fresh_version_def Let_def)
  have i: "calls (snd (getIsConsumption c' w')) = calls w' @ [Call_getAppServicePlan]"
    "fst (getIsConsumption c' w') =
        Inr (case getAppServicePlan c' of Inl e \<Rightarrow> True | Inr asp \<Rightarrow> isConsumptionPlan asp)"
    using none(3) by (simp_all add: getIsConsumption_miss Let_def)
  have h: "calls (snd (getHostJson d c' w')) =
        calls w' @ (case getKuduClient c' of
                      Inl e \<Rightarrow> [Call_getKuduClient]
                    | Inr kuduClient \<Rightarrow> [Call_getKuduClient, Call_getHostSettings])
                 @ [Call_listApplicationSettings]"
    "fst (getHostJson d c' w') =
        Inr (parseHostJson d
               (case getKuduClient c' of
                  Inl e \<Rightarrow> None
                | Inr kuduClient \<Rightarrow>
                    (case getHostSettings c' of Inl e \<Rightarrow> None | Inr data \<Rightarrow> Some data))
               fresh_version)"
    using none(1,2)
    by (simp_all add: getHostJson_miss getVersion_miss fresh_version_def Let_def split: sum.splits)
  from none same v i h show ?thesis by simp
qed


text \<open>
  Claim C8. \<^verbatim>\<open>refreshImpl\<close> never rejects: whatever \<^verbatim>\<open>getState\<close> answers, the method resolves.
  When \<^verbatim>\<open>getState\<close> rejects, the state of the node is \<^verbatim>\<open>Unknown\<close> and the three caches are
  empty all the same; when it resolves, the state is the one it resolved to.
\<close>

theorem refreshImpl_absorbs_failure:
  "fst (refreshImpl c w) = Inr ()
   \<and> (getState c = Inl e \<longrightarrow>
        state (snd (refreshImpl c w)) = Some ''Unknown''
        \<and> cachedVersion (snd (refreshImpl c w)) = None
        \<and> cachedHostJson (snd (refreshImpl c w)) = None
        \<and> cachedIsConsumption (snd (refreshImpl c w)) = None)
   \<and> (getState c = Inr s \<longrightarrow> state (snd (refreshImpl c w)) = s)"
  by (simp add: refreshImpl_eq)

theorem refreshImpl_absorbs_failure_witness:
  "getState failing_client = Inl (Rejected ''ETIMEDOUT'')
   \<and> getState example_client = Inr (Some ''Stopped'')
   \<and> fst (refreshImpl failing_client (snd (getVersion example_deps example_client example_node))) = Inr ()
   \<and> state (snd (refreshImpl failing_client (snd (getVersion example_deps example_client example_node))))
       = Some ''Unknown''
   \<and> cachedVersion (snd (refreshImpl failing_client (snd (getVersion example_deps example_client example_node))))
       = None
   \<and> state (snd (refreshImpl example_client example_node)) = Some ''Stopped''"
proof -
  have f: "getState failing_client = Inl (Rejected ''ETIMEDOUT'')"
    by (simp add: failing_client_def)
  have g: "getState example_client = Inr (Some ''Stopped'')"
    by (simp add: example_client_def)
  from refreshImpl_absorbs_failure
         [of failing_client "snd (getVersion example_deps example_client example_node)"
             "Rejected ''ETIMEDOUT''" "Some ''Stopped''"]
       refreshImpl_absorbs_failure
         [of example_client example_node "Rejected ''ETIMEDOUT''" "Some ''Stopped''"] f g
  show ?thesis by simp
qed

section \<open>Fallback values of the accessors\<close>

text \<open>
  Claim C6. Whatever the state of the cache, \<^verbatim>\<open>getVersion\<close> resolves, and the value it
  resolves to is the cached version afterwards. When the cache is empty: if
  \<^verbatim>\<open>listApplicationSettings\<close> rejects, the value is \<^verbatim>\<open>latestGAVersion\<close>; if the setting
  \<^verbatim>\<open>FUNCTIONS_EXTENSION_VERSION\<close> is absent (and the parser yields nothing for an absent
  setting), the value is \<^verbatim>\<open>latestGAVersion\<close>; if the parser yields nothing for the setting,
  the value is \<^verbatim>\<open>latestGAVersion\<close>; otherwise it is the version the parser yields.
\<close>

theorem getVersion_fallback:
  "(\<exists>v. fst (getVersion d c w) = Inr v \<and> cachedVersion (snd (getVersion d c w)) = Some v)
   \<and> (cachedVersion w = None \<longrightarrow>
        (listApplicationSettings c = Inl e \<longrightarrow> fst (getVersion d c w) = Inr (latestGAVersion d))
      \<and> (listApplicationSettings c = Inr a \<and> FUNCTIONS_EXTENSION_VERSION a = None
           \<and> tryParseFuncVersion d None = None \<longrightarrow>
           fst (getVersion d c w) = Inr (latestGAVersion d))
      \<and> (listApplicationSettings c = Inr a
           \<and> tryParseFuncVersion d (FUNCTIONS_EXTENSION_VERSION a) = None \<longrightarrow>
           fst (getVersion d c w) = Inr (latestGAVersion d))
      \<and> (listApplicationSettings c = Inr a
           \<and> tryParseFuncVersion d (FUNCTIONS_EXTENSION_VERSION a) = Some v' \<longrightarrow>
           fst (getVersion d c w) = Inr v'))"
  by (cases "cachedVersion w") (auto simp: getVersion_hit getVersion_miss Let_def)

text \<open>
  Claim C5, as amended. With an empty cache, \<^verbatim>\<open>getIsConsumption\<close> resolves to \<^verbatim>\<open>true\<close> when
  \<^verbatim>\<open>getAppServicePlan\<close> rejects, when there is no plan, when the plan has no SKU and when the
  SKU has no tier; when the SKU has a tier, it resolves to \<^verbatim>\<open>true\<close> exactly when the tier is
  the empty string or is \<^verbatim>\<open>dynamic\<close> up to the case of its letters.
\<close>

theorem getIsConsumption_plan:
  "cachedIsConsumption w = None \<Longrightarrow>
     (getAppServicePlan c = Inl e \<longrightarrow> fst (getIsConsumption c w) = Inr True)
   \<and> (getAppServicePlan c = Inr None \<longrightarrow> fst (getIsConsumption c w) = Inr True)
   \<and> (getAppServicePlan c = Inr (Some p) \<and> sku p = None \<longrightarrow>
        fst (getIsConsumption c w) = Inr True)
   \<and> (getAppServicePlan c = Inr (Some p) \<and> sku p = Some s \<and> tier s = None \<longrightarrow>
        fst (getIsConsumption c w) = Inr True)
   \<and> (getAppServicePlan c = Inr (Some p) \<and> sku p = Some s \<and> tier s = Some t \<longrightarrow>
        fst (getIsConsumption c w) = Inr (t = [] \<or> toLowerCase t = ''dynamic''))"
  by (simp add: getIsConsumption_miss isConsumptionPlan_def Let_def)

lemma lower_examples:
  "toLowerCase ''Dynamic'' = ''dynamic''" "toLowerCase ''DYNAMIC'' = ''dynamic''"
  "toLowerCase ''Standard'' = ''standard''" "toLowerCase '''' = ''''"
  by code_simp+

text \<open>
  As the claim words it, a plan whose tier is present and is not \<^verbatim>\<open>dynamic\<close> is not a
  consumption plan. For the tier \<^verbatim>\<open>""\<close> the code answers \<^verbatim>\<open>true\<close>: \<^verbatim>\<open>!asp.sku.tier\<close> holds of the
  empty string.
\<close>

theorem getIsConsumption_empty_tier_counterexample:
  "getAppServicePlan empty_tier_client = Inr (Some \<lparr>sku = Some \<lparr>tier = Some []\<rparr>\<rparr>)
   \<and> fst (getIsConsumption empty_tier_client example_node) = Inr True
   \<and> \<not> consumption_as_specified (Some \<lparr>sku = Some \<lparr>tier = Some []\<rparr>\<rparr>)"
  by (simp add: empty_tier_client_def empty_tier_plan_def example_defs getIsConsumption_miss
        isConsumptionPlan_def consumption_as_specified_def lower_examples)


theorem getVersion_fallback_witness:
  "cachedVersion example_node = None \<and> tryParseFuncVersion example_deps None = None
   \<and> fst (getVersion example_deps failing_client example_node) = Inr FuncVersion_v3
   \<and> fst (getVersion example_deps
             (example_client\<lparr>listApplicationSettings := Inr \<lparr>properties = None\<rparr>\<rparr>)
             example_node) = Inr FuncVersion_v3
   \<and> fst (getVersion example_deps
             (example_client\<lparr>listApplicationSettings :=
                Inr \<lparr>properties = Some [''FUNCTIONS_EXTENSION_VERSION'' \<mapsto> ''beta'']\<rparr>\<rparr>)
             example_node) = Inr FuncVersion_v3
   \<and> fst (getVersion example_deps example_client example_node) = Inr FuncVersion_v2
   \<and> cachedVersion (snd (getVersion example_deps example_client example_node)) = Some FuncVersion_v2"
proof -
  have n: "cachedVersion example_node = None" and p: "tryParseFuncVersion example_deps None = None"
    by (simp_all add: example_defs)
  from getVersion_fallback
         [of example_deps failing_client example_node "Rejected ''ETIMEDOUT''"]
       getVersion_fallback
         [of example_deps "example_client\<lparr>listApplicationSettings := Inr \<lparr>properties = None\<rparr>\<rparr>"
             example_node _ "\<lparr>properties = None\<rparr>"]
       getVersion_fallback
         [of example_deps
             "example_client\<lparr>listApplicationSettings :=
                Inr \<lparr>properties = Some [''FUNCTIONS_EXTENSION_VERSION'' \<mapsto> ''beta'']\<rparr>\<rparr>"
             example_node _
             "\<lparr>properties = Some [''FUNCTIONS_EXTENSION_VERSION'' \<mapsto> ''beta'']\<rparr>"]
       getVersion_fallback
         [of example_deps example_client example_node _
             "\<lparr>properties = Some [''FUNCTIONS_EXTENSION_VERSION'' \<mapsto> ''~2'']\<rparr>" FuncVersion_v2]
       n p
  show ?thesis
    by (auto simp add: example_defs FUNCTIONS_EXTENSION_VERSION_def)
qed

theorem getIsConsumption_plan_witness:
  "cachedIsConsumption example_node = None
   \<and> fst (getIsConsumption failing_client example_node) = Inr True
   \<and> fst (getIsConsumption (example_client\<lparr>getAppServicePlan := Inr None\<rparr>) example_node) = Inr True
   \<and> fst (getIsConsumption (example_client\<lparr>getAppServicePlan := Inr (Some \<lparr>sku = None\<rparr>)\<rparr>)
             example_node) = Inr True
   \<and> fst (getIsConsumption
             (example_client\<lparr>getAppServicePlan := Inr (Some \<lparr>sku = Some \<lparr>tier = None\<rparr>\<rparr>)\<rparr>)
             example_node) = Inr True
   \<and> fst (getIsConsumption
             (example_client\<lparr>getAppServicePlan := Inr (Some \<lparr>sku = Some \<lparr>tier = Some ''DYNAMIC''\<rparr>\<rparr>)\<rparr>)
             example_node) = Inr True
   \<and> fst (getIsConsumption example_client example_node) = Inr False"
proof -
  have n: "cachedIsConsumption example_node = None"
    by (simp add: example_defs)
  from getIsConsumption_plan [OF n, of failing_client "Rejected ''ETIMEDOUT''"]
       getIsConsumption_plan [OF n, of "example_client\<lparr>getAppServicePlan := Inr None\<rparr>"]
       getIsConsumption_plan
         [OF n, of "example_client\<lparr>getAppServicePlan := Inr (Some \<lparr>sku = None\<rparr>)\<rparr>" _ "\<lparr>sku = None\<rparr>"]
       getIsConsumption_plan
         [OF n, of "example_client\<lparr>getAppServicePlan := Inr (Some \<lparr>sku = Some \<lparr>tier = None\<rparr>\<rparr>)\<rparr>"
             _ "\<lparr>sku = Some \<lparr>tier = None\<rparr>\<rparr>" "\<lparr>tier = None\<rparr>"]
       getIsConsumption_plan
         [OF n, of "example_client\<lparr>getAppServicePlan := Inr (Some \<lparr>sku = Some \<lparr>tier = Some ''DYNAMIC''\<rparr>\<rparr>)\<rparr>"
             _ "\<lparr>sku = Some \<lparr>tier = Some ''DYNAMIC''\<rparr>\<rparr>" "\<lparr>tier = Some ''DYNAMIC''\<rparr>" "''DYNAMIC''"]
       getIsConsumption_plan
         [OF n, of example_client
             _ "\<lparr>sku = Some \<lparr>tier = Some ''Standard''\<rparr>\<rparr>" "\<lparr>tier = Some ''Standard''\<rparr>" "''Standard''"]
       n
  show ?thesis
    by (simp add: failing_client_def example_client_def lower_examples)
qed

section \<open>Picking a child\<close>

lemma pickTreeItemImpl_pickChild: "pickTreeItemImpl k w ms = pickChild k w ms"
proof (induction ms)
  case Nil
  show ?case by (simp add: pickChild_def first_match_def map_filter_simps)
next
  case (Cons m ms)
  then show ?case
    by (cases m)
       (simp_all add: pickChild_def first_match_def map_filter_simps lookup_table_def child_of_def)
qed

lemma first_match_none: "\<forall>m \<in> set ms. lookup_table k m = None \<Longrightarrow> first_match k ms = None"
  by (induction ms) (simp_all add: first_match_def map_filter_simps)

lemma first_match_skip:
  "\<forall>x \<in> set pre. lookup_table k x = None \<Longrightarrow> first_match k (pre @ ms) = first_match k ms"
  by (induction pre) (simp_all add: first_match_def map_filter_simps)

lemma first_match_head: "lookup_table k m = Some ch \<Longrightarrow> first_match k (m # ms) = Some ch"
  by (simp add: first_match_def map_filter_simps)

text \<open>
  Claim C7. \<^verbatim>\<open>pickTreeItemImpl\<close> goes through the markers in order and returns the child that
  the lookup table gives for the first marker the table knows: it is the search
  \<open>pickChild\<close> of the specification. In particular, when no marker before \<open>m\<close> is in the table
  and \<open>m\<close> is, the child of \<open>m\<close> is returned whatever follows; for two markers of which the
  first is a proxy marker the proxies child is returned whatever the second is; and when no
  marker is in the table the result is \<^verbatim>\<open>undefined\<close>.
\<close>

theorem pickTreeItemImpl_first_match:
  "pickTreeItemImpl k w ms = pickChild k w ms
   \<and> ((\<forall>x \<in> set pre. lookup_table k x = None) \<and> lookup_table k m = Some ch \<longrightarrow>
        pickTreeItemImpl k w (pre @ m # post) = child_of w ch)
   \<and> (lookup_table k m1 = Some ProxiesChild \<longrightarrow>
        pickTreeItemImpl k w [m1, m2] = proxiesTreeItem w)
   \<and> ((\<forall>x \<in> set ms. lookup_table k x = None) \<longrightarrow> pickTreeItemImpl k w ms = None)"
  by (simp add: pickTreeItemImpl_pickChild pickChild_def first_match_none first_match_skip
        first_match_head child_of_def)


lemma load_example:
  "loadMoreChildrenImpl example_client example_node =
    (Inr [RemoteFunctionsTreeItem 4, AppSettingsTreeItem 0, SiteFilesTreeItem 1, LogFilesTreeItem 2,
          DeploymentsTreeItem 3 (JObject [(''scmType'', JString ''None'')]) (JObject []),
          ProxiesTreeItem 5],
     example_node\<lparr>deploymentsNode :=
                    Some (DeploymentsTreeItem 3 (JObject [(''scmType'', JString ''None'')]) (JObject [])),
                  functionsTreeItem := Some (RemoteFunctionsTreeItem 4),
                  proxiesTreeItem := Some (ProxiesTreeItem 5),
                  calls := [Call_getSiteConfig, Call_getSourceControl,
                            Call_createFunctionsTreeItem, Call_createProxiesTreeItem],
                  allocated := 6\<rparr>)"
  by (simp add: load_defs async_defs example_defs)

lemma lookup_examples:
  "lookup_table example_contextValues (Str ''azFuncProxies'') = Some ProxiesChild"
  "lookup_table example_contextValues (Str ''applicationSettings'') = Some AppSettingsChild"
  "lookup_table example_contextValues (Str ''deployment/abc'') = Some DeploymentsChild"
  "lookup_table example_contextValues (Rx (RegExp 8 ''Function;'')) = Some FunctionsChild"
  "lookup_table example_contextValues (Str ''unrelated'') = None"
  "lookup_table example_contextValues (Rx (RegExp 9 ''Slot'')) = None"
  by code_simp+

theorem pickTreeItemImpl_first_match_witness:
  "lookup_table example_contextValues (Str ''azFuncProxies'') = Some ProxiesChild
   \<and> lookup_table example_contextValues (Rx (RegExp 8 ''Function;'')) = Some FunctionsChild
   \<and> lookup_table example_contextValues (Str ''unrelated'') = None
   \<and> lookup_table example_contextValues (Rx (RegExp 9 ''Slot'')) = None
   \<and> pickTreeItemImpl example_contextValues (snd (loadMoreChildrenImpl example_client example_node))
        [Str ''azFuncProxies'', Rx (RegExp 8 ''Function;'')] = Some (ProxiesTreeItem 5)
   \<and> pickTreeItemImpl example_contextValues (snd (loadMoreChildrenImpl example_client example_node))
        ([Str ''unrelated'', Rx (RegExp 9 ''Slot'')] @ Rx (RegExp 8 ''Function;'') # [Str ''azFuncProxies''])
        = Some (RemoteFunctionsTreeItem 4)
   \<and> pickTreeItemImpl example_contextValues (snd (loadMoreChildrenImpl example_client example_node))
        [Str ''unrelated'', Rx (RegExp 9 ''Slot'')] = None"
proof -
  from pickTreeItemImpl_first_match
         [of example_contextValues "snd (loadMoreChildrenImpl example_client example_node)"
             "[Str ''unrelated'', Rx (RegExp 9 ''Slot'')]" "[Str ''unrelated'', Rx (RegExp 9 ''Slot'')]"
             "Rx (RegExp 8 ''Function;'')" FunctionsChild "[Str ''azFuncProxies'']"
             "Str ''azFuncProxies''" "Rx (RegExp 8 ''Function;'')"]
  show ?thesis
    by (simp add: lookup_examples load_example child_of_def pickChild_def first_match_def
          map_filter_simps del: pickTreeItemImpl.simps)
qed


section \<open>Loading the children\<close>

lemma load_present_present:
  assumes "getSiteConfig c = Inr sc" "getSourceControl c = Inr scm"
    and "functionsTreeItem w = Some f" "proxiesTreeItem w = Some p"
  shows "loadMoreChildrenImpl c w =
    (Inr [f, appSettingsTreeItem w, siteFilesTreeItem w, logFilesTreeItem w,
          DeploymentsTreeItem (allocated w) sc scm, p],
     w\<lparr>deploymentsNode := Some (DeploymentsTreeItem (allocated w) sc scm),
       calls := calls w @ [Call_getSiteConfig, Call_getSourceControl],
       allocated := Suc (allocated w)\<rparr>)"
  using assms by (simp add: load_defs async_defs)

lemma load_absent_present:
  assumes "getSiteConfig c = Inr sc" "getSourceControl c = Inr scm"
    and "functionsTreeItem w = None" "createFunctionsTreeItem c = Inr ()" "proxiesTreeItem w = Some p"
  shows "loadMoreChildrenImpl c w =
    (Inr [RemoteFunctionsTreeItem (Suc (allocated w)), appSettingsTreeItem w, siteFilesTreeItem w,
          logFilesTreeItem w, DeploymentsTreeItem (allocated w) sc scm, p],
     w\<lparr>deploymentsNode := Some (DeploymentsTreeItem (allocated w) sc scm),
       functionsTreeItem := Some (RemoteFunctionsTreeItem (Suc (allocated w))),
       calls := calls w @ [Call_getSiteConfig, Call_getSourceControl, Call_createFunctionsTreeItem],
       allocated := Suc (Suc (allocated w))\<rparr>)"
  using assms by (simp add: load_defs async_defs)

lemma load_present_absent:
  assumes "getSiteConfig c = Inr sc" "getSourceControl c = Inr scm"
    and "functionsTreeItem w = Some f" "proxiesTreeItem w = None" "createProxiesTreeItem c = Inr ()"
  shows "loadMoreChildrenImpl c w =
    (Inr [f, appSettingsTreeItem w, siteFilesTreeItem w,
          logFilesTreeItem w, DeploymentsTreeItem (allocated w) sc scm,
          ProxiesTreeItem (Suc (allocated w))],
     w\<lparr>deploymentsNode := Some (DeploymentsTreeItem (allocated w) sc scm),
       proxiesTreeItem := Some (ProxiesTreeItem (Suc (allocated w))),
       calls := calls w @ [Call_getSiteConfig, Call_getSourceControl, Call_createProxiesTreeItem],
       allocated := Suc (Suc (allocated w))\<rparr>)"
  using assms by (simp add: load_defs async_defs)

lemma load_absent_absent:
  assumes "getSiteConfig c = Inr sc" "getSourceControl c = Inr scm"
    and "functionsTreeItem w = None" "createFunctionsTreeItem c = Inr ()"
    and "proxiesTreeItem w = None" "createProxiesTreeItem c = Inr ()"
  shows "loadMoreChildrenImpl c w =
    (Inr [RemoteFunctionsTreeItem (Suc (allocated w)), appSettingsTreeItem w, siteFilesTreeItem w,
          logFilesTreeItem w, DeploymentsTreeItem (allocated w) sc scm,
          ProxiesTreeItem (Suc (Suc (allocated w)))],
     w\<lparr>deploymentsNode := Some (DeploymentsTreeItem (allocated w) sc scm),
       functionsTreeItem := Some (RemoteFunctionsTreeItem (Suc (allocated w))),
       proxiesTreeItem := Some (ProxiesTreeItem (Suc (Suc (allocated w)))),
       calls := calls w @ [Call_getSiteConfig, Call_getSourceControl,
                           Call_createFunctionsTreeItem, Call_createProxiesTreeItem],
       allocated := Suc (Suc (Suc (allocated w)))\<rparr>)"
  using assms by (simp add: load_defs async_defs)

lemma load_keeps_children:
  "functionsTreeItem w = Some f \<Longrightarrow> functionsTreeItem (snd (loadMoreChildrenImpl c w)) = Some f"
  "proxiesTreeItem w = Some p \<Longrightarrow> proxiesTreeItem (snd (loadMoreChildrenImpl c w)) = Some p"
  by (simp_all add: load_defs async_defs split: sum.splits option.splits prod.splits)

lemma accessors_keep_children:
  assumes "fst mc \<noteq> LoadMoreChildren"
  shows "functionsTreeItem (invoke d mc w) = functionsTreeItem w"
    and "proxiesTreeItem (invoke d mc w) = proxiesTreeItem w"
    and "deploymentsNode (invoke d mc w) = deploymentsNode w"
    and "appSettingsTreeItem (invoke d mc w) = appSettingsTreeItem w"
  using assms
  by (cases "fst mc"; cases "cachedVersion w"; cases "cachedHostJson w"; cases "cachedIsConsumption w";
       simp add: invoke_def refreshImpl_eq getVersion_hit getVersion_miss getHostJson_hit
         getHostJson_miss getIsConsumption_hit getIsConsumption_miss Let_def split: sum.splits)+

lemma invoke_keeps_children:
  "functionsTreeItem w = Some f \<Longrightarrow> functionsTreeItem (invoke d mc w) = Some f"
  "proxiesTreeItem w = Some p \<Longrightarrow> proxiesTreeItem (invoke d mc w) = Some p"
proof -
  assume f: "functionsTreeItem w = Some f"
  show "functionsTreeItem (invoke d mc w) = Some f"
  proof (cases "fst mc = LoadMoreChildren")
    case True
    with f show ?thesis by (simp add: invoke_def load_keeps_children)
  next
    case False
    from accessors_keep_children(1) [OF False, of d w] f show ?thesis by simp
  qed
next
  assume p: "proxiesTreeItem w = Some p"
  show "proxiesTreeItem (invoke d mc w) = Some p"
  proof (cases "fst mc = LoadMoreChildren")
    case True
    with p show ?thesis by (simp add: invoke_def load_keeps_children)
  next
    case False
    from accessors_keep_children(2) [OF False, of d w] p show ?thesis by simp
  qed
qed

lemma run_keeps_children:
  "(functionsTreeItem w = Some f \<longrightarrow> functionsTreeItem (run d ms w) = Some f)
   \<and> (proxiesTreeItem w = Some p \<longrightarrow> proxiesTreeItem (run d ms w) = Some p)"
proof (induction ms arbitrary: w)
  case Nil
  show ?case by simp
next
  case (Cons mc ms)
  from Cons.IH [of "invoke d mc w"] invoke_keeps_children(1) [of w f d mc]
    invoke_keeps_children(2) [of w p d mc]
  show ?case by simp
qed

lemma run_without_load:
  assumes "LoadMoreChildren \<notin> set (map fst ms)"
  shows "functionsTreeItem (run d ms w) = functionsTreeItem w
       \<and> proxiesTreeItem (run d ms w) = proxiesTreeItem w
       \<and> deploymentsNode (run d ms w) = deploymentsNode w
       \<and> appSettingsTreeItem (run d ms w) = appSettingsTreeItem w"
  using assms
proof (induction ms arbitrary: w)
  case Nil
  show ?case by simp
next
  case (Cons mc ms)
  then have nl: "fst mc \<noteq> LoadMoreChildren" and rest: "LoadMoreChildren \<notin> set (map fst ms)"
    by auto
  from Cons.IH [OF rest, of "invoke d mc w"] accessors_keep_children [OF nl, of d w]
  show ?case by simp
qed

text \<open>
  Claim C9. When \<^verbatim>\<open>getSiteConfig\<close> and \<^verbatim>\<open>getSourceControl\<close> resolve, and the factory of each child
  that does not exist yet resolves, \<^verbatim>\<open>loadMoreChildrenImpl\<close> resolves to a list of exactly six
  children in the order functions, app settings, site files, log files, deployments,
  proxies. The deployments child is a new object made from the site configuration and the
  source control fetched in this very call (the two fetches are the first remote operations
  of the call) and replaces \<^verbatim>\<open>deploymentsNode\<close>. A functions or proxies child that exists is
  returned as it is, and no factory is called for it; and once such a child exists, it stays
  the same object through every later sequence of calls on the node, so each is created at
  most once. A rejection of one of the awaited operations is passed on to the caller.
\<close>

theorem loadMoreChildrenImpl_children:
  "(getSiteConfig c = Inr siteConfig \<and> getSourceControl c = Inr sourceControl
    \<and> (functionsTreeItem w = None \<longrightarrow> createFunctionsTreeItem c = Inr ())
    \<and> (proxiesTreeItem w = None \<longrightarrow> createProxiesTreeItem c = Inr ()) \<longrightarrow>
    (\<exists>functions proxies.
       fst (loadMoreChildrenImpl c w) =
         Inr [functions, appSettingsTreeItem w, siteFilesTreeItem w, logFilesTreeItem w,
              DeploymentsTreeItem (allocated w) siteConfig sourceControl, proxies]
       \<and> deploymentsNode (snd (loadMoreChildrenImpl c w)) =
           Some (DeploymentsTreeItem (allocated w) siteConfig sourceControl)
       \<and> functionsTreeItem (snd (loadMoreChildrenImpl c w)) = Some functions
       \<and> proxiesTreeItem (snd (loadMoreChildrenImpl c w)) = Some proxies
       \<and> (functionsTreeItem w \<noteq> None \<longrightarrow>
            functionsTreeItem w = Some functions
            \<and> count_list (calls (snd (loadMoreChildrenImpl c w))) Call_createFunctionsTreeItem =
                count_list (calls w) Call_createFunctionsTreeItem)
       \<and> (proxiesTreeItem w \<noteq> None \<longrightarrow>
            proxiesTreeItem w = Some proxies
            \<and> count_list (calls (snd (loadMoreChildrenImpl c w))) Call_createProxiesTreeItem =
                count_list (calls w) Call_createProxiesTreeItem)
       \<and> take 2 (drop (length (calls w)) (calls (snd (loadMoreChildrenImpl c w)))) =
           [Call_getSiteConfig, Call_getSourceControl]
       \<and> allocated w < allocated (snd (loadMoreChildrenImpl c w))))
   \<and> (functionsTreeItem w = Some f \<longrightarrow> functionsTreeItem (run d ms w) = Some f)
   \<and> (proxiesTreeItem w = Some p \<longrightarrow> proxiesTreeItem (run d ms w) = Some p)"
proof -
  have one: "\<exists>functions proxies.
       fst (loadMoreChildrenImpl c w) =
         Inr [functions, appSettingsTreeItem w, siteFilesTreeItem w, logFilesTreeItem w,
              DeploymentsTreeItem (allocated w) siteConfig sourceControl, proxies]
       \<and> deploymentsNode (snd (loadMoreChildrenImpl c w)) =
           Some (DeploymentsTreeItem (allocated w) siteConfig sourceControl)
       \<and> functionsTreeItem (snd (loadMoreChildrenImpl c w)) = Some functions
       \<and> proxiesTreeItem (snd (loadMoreChildrenImpl c w)) = Some proxies
       \<and> (functionsTreeItem w \<noteq> None \<longrightarrow>
            functionsTreeItem w = Some functions
            \<and> count_list (calls (snd (loadMoreChildrenImpl c w))) Call_createFunctionsTreeItem =
                count_list (calls w) Call_createFunctionsTreeItem)
       \<and> (proxiesTreeItem w \<noteq> None \<longrightarrow>
            proxiesTreeItem w = Some proxies
            \<and> count_list (calls (snd (loadMoreChildrenImpl c w))) Call_createProxiesTreeItem =
                count_list (calls w) Call_createProxiesTreeItem)
       \<and> take 2 (drop (length (calls w)) (calls (snd (loadMoreChildrenImpl c w)))) =
           [Call_getSiteConfig, Call_getSourceControl]
       \<and> allocated w < allocated (snd (loadMoreChildrenImpl c w))"
    if sc: "getSiteConfig c = Inr siteConfig" and scm: "getSourceControl c = Inr sourceControl"
      and cf: "functionsTreeItem w = None \<longrightarrow> createFunctionsTreeItem c = Inr ()"
      and cp: "proxiesTreeItem w = None \<longrightarrow> createProxiesTreeItem c = Inr ()"
  proof (cases "functionsTreeItem w")
    case None
    note fn = None
    with cf have cf': "createFunctionsTreeItem c = Inr ()" by simp
    show ?thesis
    proof (cases "proxiesTreeItem w")
      case None
      with cp have "createProxiesTreeItem c = Inr ()" by simp
      from load_absent_absent [OF sc scm fn cf' None this] fn None
      show ?thesis by simp
    next
      case (Some p0)
      from load_absent_present [OF sc scm fn cf' Some] fn Some
      show ?thesis by simp
    qed
  next
    case (Some f0)
    note fs = Some
    show ?thesis
    proof (cases "proxiesTreeItem w")
      case None
      with cp have "createProxiesTreeItem c = Inr ()" by simp
      from load_present_absent [OF sc scm fs None this] fs None
      show ?thesis by simp
    next
      case (Some p0)
      from load_present_present [OF sc scm fs Some] fs Some
      show ?thesis by simp
    qed
  qed
  show ?thesis
    using run_keeps_children [of w f d ms p]
    apply -
    apply (intro conjI impI)
      apply (elim conjE, rule one, assumption+)
     apply simp_all
    done
qed

text \<open>
  Claim C10. On a node on which \<^verbatim>\<open>loadMoreChildrenImpl\<close> has not run since its construction,
  whatever else was called on it, \<^verbatim>\<open>pickTreeItemImpl\<close> returns the app-settings child made by
  the constructor when the first marker that the table knows is a settings marker, and
  \<^verbatim>\<open>undefined\<close> in every other case: in particular when that marker is a proxies, deployments
  or functions marker, exactly as when no marker is known.
\<close>

theorem pick_before_load:
  assumes "LoadMoreChildren \<notin> set (map fst ms)"
  shows "(first_match k xs = Some AppSettingsChild \<longrightarrow>
            pickTreeItemImpl k (run d ms (constructor c n)) xs = Some (AppSettingsTreeItem n))
       \<and> (first_match k xs \<noteq> Some AppSettingsChild \<longrightarrow>
            pickTreeItemImpl k (run d ms (constructor c n)) xs = None)
       \<and> (first_match k xs \<in> {Some ProxiesChild, Some DeploymentsChild, Some FunctionsChild} \<longrightarrow>
            pickTreeItemImpl k (run d ms (constructor c n)) xs = None)"
proof -
  from run_without_load [OF assms, of d "constructor c n"]
  have "functionsTreeItem (run d ms (constructor c n)) = None"
    "proxiesTreeItem (run d ms (constructor c n)) = None"
    "deploymentsNode (run d ms (constructor c n)) = None"
    "appSettingsTreeItem (run d ms (constructor c n)) = AppSettingsTreeItem n"
    by (simp_all add: constructor_def)
  then show ?thesis
    by (cases "first_match k xs")
       (auto simp: pickTreeItemImpl_pickChild pickChild_def child_of_def split: child.splits)
qed


lemma load_example_again:
  "fst (loadMoreChildrenImpl example_client (snd (loadMoreChildrenImpl example_client example_node))) =
     Inr [RemoteFunctionsTreeItem 4, AppSettingsTreeItem 0, SiteFilesTreeItem 1, LogFilesTreeItem 2,
          DeploymentsTreeItem 6 (JObject [(''scmType'', JString ''None'')]) (JObject []),
          ProxiesTreeItem 5]"
  by (simp add: load_example) (simp add: load_defs async_defs example_defs)

theorem loadMoreChildrenImpl_children_witness:
  "getSiteConfig example_client = Inr (JObject [(''scmType'', JString ''None'')])
   \<and> getSourceControl example_client = Inr (JObject [])
   \<and> createFunctionsTreeItem example_client = Inr ()
   \<and> createProxiesTreeItem example_client = Inr ()
   \<and> functionsTreeItem example_node = None \<and> proxiesTreeItem example_node = None
   \<and> fst (loadMoreChildrenImpl example_client example_node) =
       Inr [RemoteFunctionsTreeItem 4, AppSettingsTreeItem 0, SiteFilesTreeItem 1, LogFilesTreeItem 2,
            DeploymentsTreeItem 3 (JObject [(''scmType'', JString ''None'')]) (JObject []),
            ProxiesTreeItem 5]
   \<and> fst (loadMoreChildrenImpl example_client
             (snd (loadMoreChildrenImpl example_client example_node))) =
       Inr [RemoteFunctionsTreeItem 4, AppSettingsTreeItem 0, SiteFilesTreeItem 1, LogFilesTreeItem 2,
            DeploymentsTreeItem 6 (JObject [(''scmType'', JString ''None'')]) (JObject []),
            ProxiesTreeItem 5]
   \<and> functionsTreeItem
         (run example_deps example_calls (snd (loadMoreChildrenImpl example_client example_node))) =
       Some (RemoteFunctionsTreeItem 4)
   \<and> proxiesTreeItem
         (run example_deps example_calls (snd (loadMoreChildrenImpl example_client example_node))) =
       Some (ProxiesTreeItem 5)"
proof -
  have a: "getSiteConfig example_client = Inr (JObject [(''scmType'', JString ''None'')])"
    "getSourceControl example_client = Inr (JObject [])"
    "createFunctionsTreeItem example_client = Inr ()"
    "createProxiesTreeItem example_client = Inr ()"
    "functionsTreeItem example_node = None" "proxiesTreeItem example_node = None"
    by (simp_all add: example_defs)
  have first: "fst (loadMoreChildrenImpl example_client example_node) =
       Inr [RemoteFunctionsTreeItem 4, AppSettingsTreeItem 0, SiteFilesTreeItem 1, LogFilesTreeItem 2,
            DeploymentsTreeItem 3 (JObject [(''scmType'', JString ''None'')]) (JObject []),
            ProxiesTreeItem 5]"
    by (simp add: load_example)
  have kept: "functionsTreeItem (snd (loadMoreChildrenImpl example_client example_node)) =
       Some (RemoteFunctionsTreeItem 4)"
    "proxiesTreeItem (snd (loadMoreChildrenImpl example_client example_node)) =
       Some (ProxiesTreeItem 5)"
    by (simp_all add: load_example)
  from loadMoreChildrenImpl_children
         [of example_client "JObject [(''scmType'', JString ''None'')]" "JObject []"
             "snd (loadMoreChildrenImpl example_client example_node)"
             "RemoteFunctionsTreeItem 4" example_deps example_calls "ProxiesTreeItem 5"]
       kept
  have later: "functionsTreeItem
         (run example_deps example_calls (snd (loadMoreChildrenImpl example_client example_node))) =
       Some (RemoteFunctionsTreeItem 4)"
    "proxiesTreeItem
         (run example_deps example_calls (snd (loadMoreChildrenImpl example_client example_node))) =
       Some (ProxiesTreeItem 5)"
    by simp_all
  from loadMoreChildrenImpl_children
         [of example_client "JObject [(''scmType'', JString ''None'')]" "JObject []" example_node]
       a first load_example_again later
  show ?thesis by simp
qed

theorem pick_before_load_witness:
  "LoadMoreChildren \<notin> set (map fst [(Refresh, failing_client), (GetHostJson, example_client)])
   \<and> first_match example_contextValues [Str ''azFuncProxies'', Str ''applicationSettings'']
       = Some ProxiesChild
   \<and> pickTreeItemImpl example_contextValues
        (run example_deps [(Refresh, failing_client), (GetHostJson, example_client)]
           (constructor example_client 0))
        [Str ''azFuncProxies'', Str ''applicationSettings''] = None
   \<and> first_match example_contextValues [Str ''unrelated'', Str ''applicationSettings'']
       = Some AppSettingsChild
   \<and> pickTreeItemImpl example_contextValues
        (run example_deps [(Refresh, failing_client), (GetHostJson, example_client)]
           (constructor example_client 0))
        [Str ''unrelated'', Str ''applicationSettings''] = Some (AppSettingsTreeItem 0)"
proof -
  have nl: "LoadMoreChildren \<notin> set (map fst [(Refresh, failing_client), (GetHostJson, example_client)])"
    by simp
  have m: "first_match example_contextValues [Str ''azFuncProxies'', Str ''applicationSettings'']
       = Some ProxiesChild"
    "first_match example_contextValues [Str ''unrelated'', Str ''applicationSettings'']
       = Some AppSettingsChild"
    by (simp_all add: first_match_def map_filter_simps lookup_examples)
  from pick_before_load [OF nl, of example_contextValues
         "[Str ''azFuncProxies'', Str ''applicationSettings'']" example_deps example_client 0]
       pick_before_load [OF nl, of example_contextValues
         "[Str ''unrelated'', Str ''applicationSettings'']" example_deps example_client 0]
       nl m
  show ?thesis by simp
qed

end
